(* ===== verification/Prelude.thy ===== *)
theory Prelude
  imports Main
begin

text \<open>
  Shared vocabulary of the development: the pieces of JavaScript semantics the sources
  rely on (\<open>String.prototype.trim\<close>, the nullish operator \<open>??\<close>), the
  async/await composition of calls that may throw, and the lemma collections the
  component theories fill.  Strings are Isabelle \<open>string\<close>s (lists of 8-bit
  \<open>char\<close>s): the model covers the Latin-1 part of JavaScript's UTF-16 strings.
\<close>

named_theorems inv_intros "preservation rules of the well-formedness invariants"

section \<open>JavaScript string semantics\<close>

text \<open>
  \<open>String.prototype.trim\<close> removes WhiteSpace and LineTerminator code units from both
  ends.  Below U+0100 these are TAB, LF, VT, FF, CR, SPACE and NO-BREAK SPACE.
\<close>

definition js_whitespace :: "char \<Rightarrow> bool" where
  "js_whitespace c \<longleftrightarrow> of_char c \<in> {9, 10, 11, 12, 13, 32, 160 :: nat}"

definition js_trim :: "string \<Rightarrow> string" where
  "js_trim s = rev (dropWhile js_whitespace (rev (dropWhile js_whitespace s)))"

text \<open>\<open>x ?? d\<close>: the default replaces only \<open>null\<close>/\<open>undefined\<close>, not an empty string.\<close>

definition js_nullish :: "'a option \<Rightarrow> 'a \<Rightarrow> 'a" where
  "js_nullish x d = (case x of Some v \<Rightarrow> v | None \<Rightarrow> d)"

section \<open>Async calls that may throw\<close>

text \<open>
  An \<open>async\<close> call run against a world \<open>'s\<close> either throws (\<open>Inl\<close>) or returns
  (\<open>Inr\<close>), and in both cases leaves a changed world.  \<open>await_then m f\<close> is
  \<open>const x = await m; return f(x)\<close>: a throw propagates unchanged.
\<close>

type_synonym ('s, 'e, 'a) async = "'s \<Rightarrow> ('e + 'a) \<times> 's"

definition await_then :: "('s, 'e, 'a) async \<Rightarrow> ('a \<Rightarrow> ('s, 'e, 'b) async) \<Rightarrow> ('s, 'e, 'b) async" where
  "await_then m f s = (case m s of (Inl e, s') \<Rightarrow> (Inl e, s') | (Inr x, s') \<Rightarrow> f x s')"

lemma await_then_Inl [simp]: "m s = (Inl e, s') \<Longrightarrow> await_then m f s = (Inl e, s')"
  by (simp add: await_then_def)

lemma await_then_Inr [simp]: "m s = (Inr x, s') \<Longrightarrow> await_then m f s = f x s'"
  by (simp add: await_then_def)

lemma await_then_assoc:
  "await_then (await_then m f) g = await_then m (\<lambda>x. await_then (f x) g)"
proof
  fix s
  show "await_then (await_then m f) g s = await_then m (\<lambda>x. await_then (f x) g) s"
    by (cases "m s" rule: prod.exhaust) (auto simp: await_then_def split: sum.splits)
qed

lemma await_then_cases:
  assumes "await_then m f s = (r, s')"
  obtains e where "m s = (Inl e, s')" and "r = Inl e"
  | x s1 where "m s = (Inr x, s1)" and "f x s1 = (r, s')"
  using assms by (cases "m s" rule: prod.exhaust) (auto simp: await_then_def split: sum.splits)

section \<open>Lemmas on lists\<close>

lemma find_append: "find P (xs @ ys) = (case find P xs of None \<Rightarrow> find P ys | Some x \<Rightarrow> Some x)"
  by (induction xs) auto

section \<open>Lemmas on trimming\<close>

lemma dropWhile_all_Nil:
  "(\<forall>x\<in>set (dropWhile P xs). P x) \<longleftrightarrow> dropWhile P xs = []"
proof
  assume all: "\<forall>x\<in>set (dropWhile P xs). P x"
  show "dropWhile P xs = []"
  proof (rule ccontr)
    assume ne: "dropWhile P xs \<noteq> []"
    then have "\<not> P (hd (dropWhile P xs))" by (rule hd_dropWhile)
    with ne all show False by simp
  qed
next
  assume "dropWhile P xs = []"
  then show "\<forall>x\<in>set (dropWhile P xs). P x" by (simp del: dropWhile_eq_Nil_conv)
qed

lemma js_trim_Nil_iff: "js_trim s = [] \<longleftrightarrow> (\<forall>c\<in>set s. js_whitespace c)"
  by (simp add: js_trim_def dropWhile_all_Nil dropWhile_eq_Nil_conv)

lemma js_trim_last:
  "js_trim s \<noteq> [] \<Longrightarrow> \<not> js_whitespace (last (js_trim s))"
  unfolding js_trim_def by (auto simp: last_rev hd_dropWhile dest: set_dropWhileD)

lemma js_trim_hd:
  "js_trim s \<noteq> [] \<Longrightarrow> \<not> js_whitespace (hd (js_trim s))"
proof -
  let ?t = "dropWhile js_whitespace s"
  assume ne: "js_trim s \<noteq> []"
  then have t: "?t \<noteq> []" by (auto simp: js_trim_def dest: set_dropWhileD)
  then have h: "\<not> js_whitespace (hd ?t)" by (rule hd_dropWhile)
  have "hd (js_trim s) = last (dropWhile js_whitespace (rev ?t))"
    using ne by (simp add: js_trim_def hd_rev)
  also have "\<dots> = last (rev ?t)"
    using t h by (intro dropWhile_last) (auto simp: hd_in_set)
  also have "\<dots> = hd ?t" using t by (simp add: last_rev)
  finally show ?thesis using h by simp
qed

lemma js_trim_id:
  "s = [] \<or> (\<not> js_whitespace (hd s) \<and> \<not> js_whitespace (last s)) \<Longrightarrow> js_trim s = s"
proof (cases s rule: rev_cases)
  case (snoc ys y)
  assume "s = [] \<or> (\<not> js_whitespace (hd s) \<and> \<not> js_whitespace (last s))"
  with snoc have "\<not> js_whitespace (hd s)" "\<not> js_whitespace y" by auto
  then show ?thesis using snoc
    by (cases ys) (simp_all add: js_trim_def)
qed (simp add: js_trim_def)

lemma js_trim_idem: "js_trim (js_trim s) = js_trim s"
  using js_trim_hd js_trim_last js_trim_id by blast

lemma js_trim_infix:
  "\<exists>a b. s = a @ js_trim s @ b \<and> (\<forall>c\<in>set (a @ b). js_whitespace c)"
proof -
  let ?P = js_whitespace
  let ?a = "takeWhile ?P s" and ?b = "rev (takeWhile ?P (rev (dropWhile ?P s)))"
  have "rev (dropWhile ?P s) = takeWhile ?P (rev (dropWhile ?P s)) @ rev (js_trim s)"
    by (simp add: js_trim_def)
  then have "dropWhile ?P s = js_trim s @ ?b" by (metis rev_append rev_rev_ident)
  then have "s = ?a @ js_trim s @ ?b" by (metis takeWhile_dropWhile_id)
  moreover have "\<forall>c\<in>set (?a @ ?b). ?P c" by (auto dest: set_takeWhileD)
  ultimately show ?thesis by blast
qed

end
