(* ===== verification/Backend.thy ===== *)
theory Backend
  imports Prelude
begin

text \<open>
  The remote account service and the SDK object \<open>account\<close> of
  \<open>src/appwrite/client.ts\<close>.  The service is not code of this repository: it is
  modelled from the spec (sections 3, 4.1, 6 and 7) as an explicit state that every call
  threads through.  Its state holds the registered accounts, the session designated
  \<open>"current"\<close> (the id of the account it belongs to), the generator behind
  \<open>ID.unique()\<close>, and a schedule of link outcomes: each network round-trip consumes
  one outcome, so that a lost request (the server never sees the call) and a lost
  response (the server performs the call but the client sees a failure) are both
  explicit, and an empty schedule is a healthy network.
\<close>

section \<open>Data\<close>

text \<open>The constants \<open>new Client().setEndpoint(...).setProject(...).setPlatform(...)\<close>
  configures, fixed at initialisation.\<close>

record client_config =
  endpoint :: string
  project :: string
  platform :: string

definition client :: client_config where
  "client = \<lparr>endpoint = ''https://fra.cloud.appwrite.io/v1'', project = ''68b83baf0025a8047e32'',
             platform = ''com.liongatetechnology.authapp''\<rparr>"

datatype link = Delivered | Lost_request | Lost_response

record account =
  acc_id :: nat
  acc_email :: string
  acc_password :: string
  acc_name :: string
  acc_prefs :: "(string \<times> string) list"

text \<open>\<open>Models.User<Models.Preferences>\<close>: the client's read-only snapshot of an account.\<close>

record user =
  user_id :: nat
  user_name :: string
  user_email :: string
  user_prefs :: "(string \<times> string) list"

definition user_of :: "account \<Rightarrow> user" where
  "user_of a = \<lparr>user_id = acc_id a, user_name = acc_name a, user_email = acc_email a,
                user_prefs = acc_prefs a\<rparr>"

record backend =
  accounts :: "account list"
  session :: "nat option"
  links :: "link list"
  id_seed :: nat

text \<open>The single error kind \<open>RemoteError\<close>, by the causes the spec lists.\<close>

datatype remote_error =
    Network_failure
  | Argument_invalid string
  | User_already_exists
  | User_invalid_credentials
  | User_session_already_exists
  | Guest_missing_scope
  | Session_not_found

fun error_message :: "remote_error \<Rightarrow> string option" where
  "error_message Network_failure = Some ''Network request failed''"
| "error_message (Argument_invalid p) = Some (''Invalid '' @ p @ '' param'')"
| "error_message User_already_exists =
     Some ''A user with the same id, email, or phone already exists in this project.''"
| "error_message User_invalid_credentials =
     Some ''Invalid credentials. Please check the email and password.''"
| "error_message User_session_already_exists =
     Some ''Creation of a session is prohibited when a session is active.''"
| "error_message Guest_missing_scope = Some ''User (role: guests) missing scope (account)''"
| "error_message Session_not_found = Some ''The current user session could not be found.''"

section \<open>Server side\<close>

definition email_valid :: "string \<Rightarrow> bool" where
  "email_valid e \<longleftrightarrow>
     takeWhile (\<lambda>c. c \<noteq> CHR ''@'') e \<noteq> [] \<and> 2 \<le> length (dropWhile (\<lambda>c. c \<noteq> CHR ''@'') e)"

definition min_password_length :: nat where
  "min_password_length = 8"

definition find_email :: "string \<Rightarrow> account list \<Rightarrow> account option" where
  "find_email e as = find (\<lambda>a. acc_email a = e) as"

definition find_id :: "nat \<Rightarrow> account list \<Rightarrow> account option" where
  "find_id i as = find (\<lambda>a. acc_id a = i) as"

definition check_params :: "string \<Rightarrow> string \<Rightarrow> remote_error option" where
  "check_params e pw =
     (if \<not> email_valid e then Some (Argument_invalid ''email'')
      else if length pw < min_password_length then Some (Argument_invalid ''password'')
      else None)"

definition srv_create ::
  "nat \<Rightarrow> string \<Rightarrow> string \<Rightarrow> string \<Rightarrow> (backend, remote_error, user) async" where
  "srv_create uid e pw nm b =
     (case check_params e pw of
        Some err \<Rightarrow> (Inl err, b)
      | None \<Rightarrow>
          if find_id uid (accounts b) \<noteq> None \<or> find_email e (accounts b) \<noteq> None
          then (Inl User_already_exists, b)
          else let a = \<lparr>acc_id = uid, acc_email = e, acc_password = pw, acc_name = nm,
                        acc_prefs = []\<rparr>
               in (Inr (user_of a), b\<lparr>accounts := accounts b @ [a]\<rparr>))"

definition srv_create_session :: "string \<Rightarrow> string \<Rightarrow> (backend, remote_error, nat) async" where
  "srv_create_session e pw b =
     (case check_params e pw of
        Some err \<Rightarrow> (Inl err, b)
      | None \<Rightarrow>
          if session b \<noteq> None then (Inl User_session_already_exists, b)
          else case find_email e (accounts b) of
                 None \<Rightarrow> (Inl User_invalid_credentials, b)
               | Some a \<Rightarrow>
                   if acc_password a = pw then (Inr (acc_id a), b\<lparr>session := Some (acc_id a)\<rparr>)
                   else (Inl User_invalid_credentials, b))"

definition srv_get :: "(backend, remote_error, user) async" where
  "srv_get b =
     (case session b of
        None \<Rightarrow> (Inl Guest_missing_scope, b)
      | Some i \<Rightarrow>
          (case find_id i (accounts b) of
             None \<Rightarrow> (Inl Guest_missing_scope, b)
           | Some a \<Rightarrow> (Inr (user_of a), b)))"

definition srv_delete_session :: "string \<Rightarrow> (backend, remote_error, unit) async" where
  "srv_delete_session sid b =
     (case session b of
        None \<Rightarrow> (Inl Guest_missing_scope, b)
      | Some _ \<Rightarrow>
          if sid = ''current'' then (Inr (), b\<lparr>session := None\<rparr>)
          else (Inl Session_not_found, b))"

section \<open>Client side: the SDK calls\<close>

text \<open>One round-trip: consume one link outcome, then run the server handler or not.\<close>

definition remote_call :: "(backend, remote_error, 'a) async \<Rightarrow> (backend, remote_error, 'a) async" where
  "remote_call h b =
     (case links b of
        [] \<Rightarrow> h b
      | Delivered # ls \<Rightarrow> h (b\<lparr>links := ls\<rparr>)
      | Lost_request # ls \<Rightarrow> (Inl Network_failure, b\<lparr>links := ls\<rparr>)
      | Lost_response # ls \<Rightarrow> (Inl Network_failure, snd (h (b\<lparr>links := ls\<rparr>))))"

text \<open>\<open>ID.unique()\<close> is local to the SDK: no round-trip.\<close>

definition ID_unique :: "backend \<Rightarrow> nat \<times> backend" where
  "ID_unique b = (id_seed b, b\<lparr>id_seed := Suc (id_seed b)\<rparr>)"

definition account_create ::
  "nat \<Rightarrow> string \<Rightarrow> string \<Rightarrow> string \<Rightarrow> (backend, remote_error, user) async" where
  "account_create uid e pw nm = remote_call (srv_create uid e pw nm)"

definition account_create_email_password_session ::
  "string \<Rightarrow> string \<Rightarrow> (backend, remote_error, nat) async" where
  "account_create_email_password_session e pw = remote_call (srv_create_session e pw)"

definition account_get :: "(backend, remote_error, user) async" where
  "account_get = remote_call srv_get"

definition account_delete_session :: "string \<Rightarrow> (backend, remote_error, unit) async" where
  "account_delete_session sid = remote_call (srv_delete_session sid)"

section \<open>Well-formedness of the service state\<close>

text \<open>Account ids and emails are unique, every id was issued by \<open>ID.unique()\<close>, and the
  current session belongs to a registered account.\<close>

definition backend_wf :: "backend \<Rightarrow> bool" where
  "backend_wf b \<longleftrightarrow>
     distinct (map acc_id (accounts b)) \<and> distinct (map acc_email (accounts b)) \<and>
     (\<forall>a\<in>set (accounts b). acc_id a < id_seed b) \<and>
     (case session b of None \<Rightarrow> True | Some i \<Rightarrow> i \<in> set (map acc_id (accounts b)))"

section \<open>Example service states\<close>

text \<open>Concrete states for the witnesses: an empty service, and one holding the account the
  login screen's test credentials (\<open>src/app/(auth)/login.tsx\<close>) belong to.\<close>

definition empty_backend :: backend where
  "empty_backend = \<lparr>accounts = [], session = None, links = [], id_seed = 0\<rparr>"

definition test_account :: account where
  "test_account = \<lparr>acc_id = 0, acc_email = ''jimmuell@aol.com'', acc_password = ''12345678'',
                   acc_name = ''Jim'', acc_prefs = []\<rparr>"

definition test_backend :: backend where
  "test_backend = \<lparr>accounts = [test_account], session = None, links = [], id_seed = 1\<rparr>"

section \<open>Lemmas\<close>

lemma find_email_None: "find_email e as = None \<longleftrightarrow> e \<notin> set (map acc_email as)"
  by (auto simp: find_email_def find_None_iff)

lemma find_id_None: "find_id i as = None \<longleftrightarrow> i \<notin> set (map acc_id as)"
  by (auto simp: find_id_def find_None_iff)

lemma find_email_Some: "find_email e as = Some a \<Longrightarrow> a \<in> set as \<and> acc_email a = e"
  by (auto simp: find_email_def dest: find_Some_iff[THEN iffD1] simp: find_Some_iff)

lemma find_id_Some: "find_id i as = Some a \<Longrightarrow> a \<in> set as \<and> acc_id a = i"
  by (auto simp: find_id_def find_Some_iff)

lemma find_id_distinct:
  "distinct (map acc_id as) \<Longrightarrow> a \<in> set as \<Longrightarrow> find_id (acc_id a) as = Some a"
  by (induction as) (auto simp: find_id_def)

lemma find_email_distinct:
  "distinct (map acc_email as) \<Longrightarrow> a \<in> set as \<Longrightarrow> find_email (acc_email a) as = Some a"
  by (induction as) (auto simp: find_email_def)

lemma find_email_append_fresh:
  "e \<notin> set (map acc_email as) \<Longrightarrow>
     find_email e (as @ [a]) = (if acc_email a = e then Some a else None)"
  by (induction as) (auto simp: find_email_def)

lemma find_id_append_fresh:
  "i \<notin> set (map acc_id as) \<Longrightarrow> find_id i (as @ [a]) = (if acc_id a = i then Some a else None)"
  by (induction as) (auto simp: find_id_def)

lemma backend_wf_links [simp]: "backend_wf (b\<lparr>links := ls\<rparr>) = backend_wf b"
  by (simp add: backend_wf_def split: option.splits)

lemma backend_links_same: "links b = ls \<Longrightarrow> b\<lparr>links := ls\<rparr> = b"
  by (cases b) simp

lemma remote_call_healthy [simp]: "links b = [] \<Longrightarrow> remote_call h b = h b"
  by (simp add: remote_call_def)

lemma remote_call_Inr:
  "remote_call h b = (Inr x, b') \<Longrightarrow> h (b\<lparr>links := drop 1 (links b)\<rparr>) = (Inr x, b')"
  by (auto simp: remote_call_def backend_links_same split: list.splits link.splits)

lemma remote_call_preserves:
  assumes "\<And>b. P b \<Longrightarrow> P (snd (h b))" and "\<And>b ls. P (b\<lparr>links := ls\<rparr>) = P b" and "P b"
  shows "P (snd (remote_call h b))"
  using assms by (auto simp: remote_call_def split: list.splits link.splits)

lemma srv_create_wf:
  "backend_wf b \<Longrightarrow> uid < id_seed b \<Longrightarrow> backend_wf (snd (srv_create uid e pw nm b))"
  by (auto simp: srv_create_def backend_wf_def find_email_None find_id_None Let_def
      split: option.splits)

lemma srv_create_session_wf:
  "backend_wf b \<Longrightarrow> backend_wf (snd (srv_create_session e pw b))"
  by (auto simp: srv_create_session_def backend_wf_def dest!: find_email_Some
      split: option.splits)

lemma srv_get_wf: "backend_wf b \<Longrightarrow> backend_wf (snd (srv_get b))"
  by (simp add: srv_get_def split: option.splits)

lemma srv_delete_session_wf: "backend_wf b \<Longrightarrow> backend_wf (snd (srv_delete_session sid b))"
  by (auto simp: srv_delete_session_def backend_wf_def split: option.splits)


lemma remote_call_fail:
  assumes "h (b\<lparr>links := drop 1 (links b)\<rparr>) = (Inl e, b\<lparr>links := drop 1 (links b)\<rparr>)"
  shows "\<exists>e'. remote_call h b = (Inl e', b\<lparr>links := drop 1 (links b)\<rparr>)"
  using assms by (auto simp: remote_call_def backend_links_same split: list.splits link.splits)

lemma ID_unique_wf:
  assumes "backend_wf b" and "ID_unique b = (uid, b1)"
  shows "backend_wf b1" and "uid < id_seed b1" and "uid \<notin> set (map acc_id (accounts b1))"
  using assms by (auto simp: ID_unique_def backend_wf_def less_SucI split: option.splits)

lemma account_create_wf [inv_intros]:
  assumes "backend_wf b" and "uid < id_seed b"
  shows "backend_wf (snd (account_create uid e pw nm b))"
proof -
  have "backend_wf (snd (remote_call (srv_create uid e pw nm) b)) \<and>
        uid < id_seed (snd (remote_call (srv_create uid e pw nm) b))"
    by (rule remote_call_preserves [where P = "\<lambda>b. backend_wf b \<and> uid < id_seed b"])
       (use assms in \<open>auto simp: srv_create_wf, auto simp: srv_create_def Let_def split: option.splits\<close>)
  then show ?thesis by (simp add: account_create_def)
qed

lemma account_create_email_password_session_wf [inv_intros]:
  "backend_wf b \<Longrightarrow> backend_wf (snd (account_create_email_password_session e pw b))"
  unfolding account_create_email_password_session_def
  by (rule remote_call_preserves) (auto simp: srv_create_session_wf)

lemma account_get_wf [inv_intros]: "backend_wf b \<Longrightarrow> backend_wf (snd (account_get b))"
  unfolding account_get_def by (rule remote_call_preserves) (auto simp: srv_get_wf)

lemma account_delete_session_wf [inv_intros]:
  "backend_wf b \<Longrightarrow> backend_wf (snd (account_delete_session sid b))"
  unfolding account_delete_session_def
  by (rule remote_call_preserves) (auto simp: srv_delete_session_wf)

text \<open>Accounts are never removed, and a user returned by \<open>account.get()\<close> is the snapshot
  of a registered account.\<close>

lemma remote_call_accounts_mono:
  assumes "\<And>b'. set (accounts b') \<subseteq> set (accounts (snd (h b')))"
  shows "set (accounts b) \<subseteq> set (accounts (snd (remote_call h b)))"
  by (rule remote_call_preserves [where P = "\<lambda>x. set (accounts b) \<subseteq> set (accounts x)"])
     (use assms in \<open>auto intro: subset_trans\<close>)

lemma sdk_accounts_mono:
  "set (accounts b) \<subseteq> set (accounts (snd (account_create uid e pw nm b)))"
  "set (accounts b) \<subseteq> set (accounts (snd (account_create_email_password_session e pw b)))"
  "set (accounts b) \<subseteq> set (accounts (snd (account_get b)))"
  "set (accounts b) \<subseteq> set (accounts (snd (account_delete_session sid b)))"
  unfolding account_create_def account_create_email_password_session_def account_get_def
    account_delete_session_def
  by (rule remote_call_accounts_mono;
      auto simp: srv_create_def srv_create_session_def srv_get_def srv_delete_session_def Let_def
      split: option.splits)+

lemma account_get_user:
  "fst (account_get b) = Inr u \<Longrightarrow> u \<in> user_of ` set (accounts (snd (account_get b)))"
proof -
  assume r: "fst (account_get b) = Inr u"
  obtain b' where "remote_call srv_get b = (Inr u, b')"
    using r unfolding account_get_def by (cases "remote_call srv_get b") auto
  then show ?thesis
    unfolding account_get_def
    by (auto simp: srv_get_def dest!: remote_call_Inr find_id_Some split: option.splits)
qed

lemma remote_call_accounts_same:
  assumes "\<And>b'. accounts (snd (h b')) = accounts b'"
  shows "accounts (snd (remote_call h b)) = accounts b"
  by (rule remote_call_preserves [where P = "\<lambda>x. accounts x = accounts b"]) (simp_all add: assms)

lemma sdk_accounts_same [simp]:
  "accounts (snd (account_create_email_password_session e pw b)) = accounts b"
  "accounts (snd (account_get b)) = accounts b"
  "accounts (snd (account_delete_session sid b)) = accounts b"
  unfolding account_create_email_password_session_def account_get_def account_delete_session_def
  by (rule remote_call_accounts_same;
      simp add: srv_create_session_def srv_get_def srv_delete_session_def split: option.splits)+

text \<open>Account creation adds at most the account with the id it was given.\<close>

lemma account_create_ids:
  "set (map acc_id (accounts (snd (account_create uid e pw nm b)))) \<subseteq>
     insert uid (set (map acc_id (accounts b)))"
  unfolding account_create_def
  by (rule remote_call_preserves [where P = "\<lambda>x. set (map acc_id (accounts x)) \<subseteq>
        insert uid (set (map acc_id (accounts b)))"])
     (auto simp: srv_create_def Let_def split: option.splits)

text \<open>A well-formed service holds at most as many accounts as ids were issued.\<close>

lemma backend_wf_accounts_bound: "backend_wf b \<Longrightarrow> length (accounts b) \<le> id_seed b"
proof -
  assume wf: "backend_wf b"
  then have "length (accounts b) = card (acc_id ` set (accounts b))"
    using distinct_card [of "map acc_id (accounts b)"] by (simp add: backend_wf_def)
  also have "\<dots> \<le> card {..<id_seed b}"
    using wf by (intro card_mono) (auto simp: backend_wf_def)
  finally show ?thesis by simp
qed

lemma remote_call_id_seed:
  assumes "\<And>b'. id_seed (snd (h b')) = id_seed b'"
  shows "id_seed (snd (remote_call h b)) = id_seed b"
  by (rule remote_call_preserves [where P = "\<lambda>x. id_seed x = id_seed b"]) (simp_all add: assms)

lemma sdk_id_seed [simp]:
  "id_seed (snd (account_create uid e pw nm b)) = id_seed b"
  "id_seed (snd (account_create_email_password_session e pw b)) = id_seed b"
  "id_seed (snd (account_get b)) = id_seed b"
  "id_seed (snd (account_delete_session sid b)) = id_seed b"
  unfolding account_create_def account_create_email_password_session_def account_get_def
    account_delete_session_def
  by (rule remote_call_id_seed,
      simp add: srv_create_def srv_create_session_def srv_get_def srv_delete_session_def Let_def
      split: option.splits)+

end
