(* ===== verification/Auth.thy ===== *)
theory Auth
  imports Backend
begin

text \<open>
  The three auth flows of \<open>src/appwrite/auth.ts\<close>, composed from the SDK calls of
  \<open>Backend\<close> with \<open>await_then\<close>: each \<open>await\<close> is one round-trip, and a throw at
  any of them ends the flow with that error (no compensation).
\<close>

section \<open>Operations\<close>

definition register :: "string \<Rightarrow> string \<Rightarrow> string \<Rightarrow> (backend, remote_error, user) async" where
  "register email password name b =
     (let (uid, b1) = ID_unique b in
      await_then (account_create uid email password name)
        (\<lambda>_. await_then (account_create_email_password_session email password)
          (\<lambda>_. account_get)) b1)"

definition login :: "string \<Rightarrow> string \<Rightarrow> (backend, remote_error, user) async" where
  "login email password =
     await_then (account_create_email_password_session email password) (\<lambda>_. account_get)"

definition logout :: "(backend, remote_error, unit) async" where
  "logout = account_delete_session ''current''"

section \<open>Lemmas\<close>

lemma register_eq_create_then_login:
  "register email password name b =
     (let (uid, b1) = ID_unique b in
      await_then (account_create uid email password name) (\<lambda>_. login email password) b1)"
  by (simp add: register_def login_def)

lemma create_session_fails:
  assumes "\<exists>err. srv_create_session e pw (b\<lparr>links := drop 1 (links b)\<rparr>) =
                   (Inl err, b\<lparr>links := drop 1 (links b)\<rparr>)"
  shows "\<exists>err. account_create_email_password_session e pw b = (Inl err, b\<lparr>links := drop 1 (links b)\<rparr>)"
  using assms remote_call_fail unfolding account_create_email_password_session_def by blast

lemma create_session_while_active:
  "session b \<noteq> None \<Longrightarrow>
     \<exists>err. account_create_email_password_session e pw b = (Inl err, b\<lparr>links := drop 1 (links b)\<rparr>)"
  by (rule create_session_fails) (auto simp: srv_create_session_def split: option.splits)

lemma login_fails_at_session:
  assumes "\<exists>err. account_create_email_password_session e pw b = (Inl err, b')"
  shows "\<exists>err. login e pw b = (Inl err, b')"
  using assms by (auto simp: login_def)

text \<open>C2: \<open>login\<close> with an email no account has always throws, whatever the network
  does, and leaves the accounts and the session unchanged (only one link outcome is used).\<close>

lemma login_unknown_email:
  assumes "e \<notin> set (map acc_email (accounts b))"
  shows "\<exists>err. login e pw b = (Inl err, b\<lparr>links := drop 1 (links b)\<rparr>)"
  by (intro login_fails_at_session create_session_fails)
     (use assms in \<open>auto simp: srv_create_session_def find_email_None dest: find_email_Some split: option.splits\<close>)

text \<open>C4: while the service holds an active session, \<open>login\<close> always throws and changes
  nothing: the SDK refuses to create a second session.\<close>

lemma login_session_active:
  assumes "session b \<noteq> None"
  shows "\<exists>err. login e pw b = (Inl err, b\<lparr>links := drop 1 (links b)\<rparr>)"
  by (rule login_fails_at_session [OF create_session_while_active [OF assms]])

text \<open>C3: a \<open>login\<close> that returns a user returns exactly the account the submitted
  email and password belong to, and leaves the session designating that account.\<close>

lemma login_sound:
  assumes wf: "backend_wf b" and r: "login e pw b = (Inr u, b')"
  shows "\<exists>a\<in>set (accounts b). acc_email a = e \<and> acc_password a = pw \<and> u = user_of a \<and>
           session b' = Some (acc_id a) \<and> accounts b' = accounts b"
proof -
  from r obtain x b1 where s1: "account_create_email_password_session e pw b = (Inr x, b1)"
      and g: "account_get b1 = (Inr u, b')"
    unfolding login_def by (auto elim: await_then_cases)
  let ?b0 = "b\<lparr>links := drop 1 (links b)\<rparr>"
  from s1 have "srv_create_session e pw ?b0 = (Inr x, b1)"
    unfolding account_create_email_password_session_def by (rule remote_call_Inr)
  then obtain a where a: "find_email e (accounts b) = Some a" "acc_password a = pw"
      and b1: "b1 = ?b0\<lparr>session := Some (acc_id a)\<rparr>"
    by (auto simp: srv_create_session_def split: option.splits if_splits)
  from a(1) have ain: "a \<in> set (accounts b)" "acc_email a = e" by (auto dest: find_email_Some)
  let ?b2 = "b1\<lparr>links := drop 1 (links b1)\<rparr>"
  from g have "srv_get ?b2 = (Inr u, b')"
    unfolding account_get_def by (rule remote_call_Inr)
  moreover from wf ain have "find_id (acc_id a) (accounts b) = Some a"
    by (auto simp: backend_wf_def intro: find_id_distinct)
  ultimately have "u = user_of a" "b' = ?b2"
    using b1 by (auto simp: srv_get_def)
  with ain a b1 show ?thesis by auto
qed


text \<open>The three calls of a registration on a healthy network, for a fresh id and email and
  valid parameters.\<close>

lemma healthy_register_calls:
  assumes net: "links b = []" and nos: "session b = None" and cp: "check_params e pw = None"
    and nid: "uid \<notin> set (map acc_id (accounts b))" and fresh: "e \<notin> set (map acc_email (accounts b))"
    and a: "a = \<lparr>acc_id = uid, acc_email = e, acc_password = pw, acc_name = n, acc_prefs = []\<rparr>"
  shows "account_create uid e pw n b = (Inr (user_of a), b\<lparr>accounts := accounts b @ [a]\<rparr>)"
    and "account_create_email_password_session e pw (b\<lparr>accounts := accounts b @ [a]\<rparr>) =
           (Inr uid, b\<lparr>accounts := accounts b @ [a], session := Some uid\<rparr>)"
    and "account_get (b\<lparr>accounts := accounts b @ [a], session := Some uid\<rparr>) =
           (Inr (user_of a), b\<lparr>accounts := accounts b @ [a], session := Some uid\<rparr>)"
  using assms
  by (simp_all add: account_create_def srv_create_def find_id_None find_email_None Let_def
      account_create_email_password_session_def srv_create_session_def find_email_append_fresh
      account_get_def srv_get_def find_id_append_fresh)

text \<open>A registration on a healthy network, for a well-formed service with no session and
  valid parameters not yet registered: the id \<open>ID.unique()\<close> draws, the appended account,
  and the session designating it.\<close>

lemma register_healthy_eq:
  assumes wf: "backend_wf b" and net: "links b = []" and nos: "session b = None"
    and cp: "check_params e pw = None" and fresh: "e \<notin> set (map acc_email (accounts b))"
    and a: "a = \<lparr>acc_id = id_seed b, acc_email = e, acc_password = pw, acc_name = n, acc_prefs = []\<rparr>"
  shows "register e pw n b =
           (Inr (user_of a), b\<lparr>id_seed := Suc (id_seed b), accounts := accounts b @ [a],
                                session := Some (id_seed b)\<rparr>)"
proof -
  let ?b1 = "b\<lparr>id_seed := Suc (id_seed b)\<rparr>"
  have nid: "id_seed b \<notin> set (map acc_id (accounts ?b1))" using wf by (auto simp: backend_wf_def)
  note calls = healthy_register_calls [of ?b1 e pw "id_seed b" a n, OF _ _ cp nid _ a]
  show ?thesis using calls net nos fresh by (simp add: register_def ID_unique_def)
qed

lemma valid_params: "email_valid e \<Longrightarrow> min_password_length \<le> length pw \<Longrightarrow> check_params e pw = None"
  by (simp add: check_params_def)

text \<open>C1: on a healthy network, for a well-formed service with no active session, a valid
  email not yet registered and a long enough password, \<open>register\<close> returns a user whose
  email and name are the submitted ones, and an immediate \<open>account.get()\<close> returns that
  same user.\<close>

lemma register_healthy:
  assumes wf: "backend_wf b" and net: "links b = []" and nos: "session b = None"
    and ev: "email_valid e" and pl: "min_password_length \<le> length pw"
    and fresh: "e \<notin> set (map acc_email (accounts b))"
  shows "\<exists>u b'. register e pw n b = (Inr u, b') \<and> user_email u = e \<and> user_name u = n \<and>
           account_get b' = (Inr u, b')"
proof -
  let ?a = "\<lparr>acc_id = id_seed b, acc_email = e, acc_password = pw, acc_name = n, acc_prefs = []\<rparr>"
  let ?b1 = "b\<lparr>id_seed := Suc (id_seed b)\<rparr>"
  have cp: "check_params e pw = None" using ev pl by (rule valid_params)
  have nid: "id_seed b \<notin> set (map acc_id (accounts ?b1))" using wf by (auto simp: backend_wf_def)
  note calls = healthy_register_calls [of ?b1 e pw "id_seed b" ?a n, OF _ _ cp nid _ refl]
  show ?thesis
    using register_healthy_eq [OF wf net nos cp fresh refl] calls net nos fresh
    by (auto simp: user_of_def)
qed

lemma register_healthy_witness:
  "backend_wf empty_backend \<and> links empty_backend = [] \<and> session empty_backend = None \<and>
   email_valid ''jimmuell@aol.com'' \<and> min_password_length \<le> length ''12345678'' \<and>
   ''jimmuell@aol.com'' \<notin> set (map acc_email (accounts empty_backend)) \<and>
   (\<exists>u b'. register ''jimmuell@aol.com'' ''12345678'' ''Jim'' empty_backend = (Inr u, b') \<and>
      user_email u = ''jimmuell@aol.com'' \<and> user_name u = ''Jim'' \<and> account_get b' = (Inr u, b'))"
proof -
  have h: "backend_wf empty_backend" "links empty_backend = []" "session empty_backend = None"
    "email_valid ''jimmuell@aol.com''" "min_password_length \<le> length ''12345678''"
    "''jimmuell@aol.com'' \<notin> set (map acc_email (accounts empty_backend))"
    by (simp_all add: empty_backend_def backend_wf_def email_valid_def min_password_length_def)
  show ?thesis using h register_healthy [OF h] by blast
qed


lemma login_unknown_email_witness:
  "''nobody@example.com'' \<notin> set (map acc_email (accounts test_backend)) \<and>
   (\<exists>err. login ''nobody@example.com'' ''12345678'' test_backend =
      (Inl err, test_backend\<lparr>links := drop 1 (links test_backend)\<rparr>))"
proof -
  have h: "''nobody@example.com'' \<notin> set (map acc_email (accounts test_backend))"
    by (simp add: test_backend_def test_account_def)
  show ?thesis using h login_unknown_email [OF h] by blast
qed

lemma login_session_active_witness:
  "session (test_backend\<lparr>session := Some 0\<rparr>) \<noteq> None \<and>
   (\<exists>err. login ''jimmuell@aol.com'' ''12345678'' (test_backend\<lparr>session := Some 0\<rparr>) =
      (Inl err, (test_backend\<lparr>session := Some 0\<rparr>)\<lparr>links := drop 1 (links test_backend)\<rparr>))"
proof -
  have h: "session (test_backend\<lparr>session := Some 0\<rparr>) \<noteq> None" by simp
  show ?thesis using h login_session_active [OF h] by simp
qed

lemma login_test_credentials:
  "login ''jimmuell@aol.com'' ''12345678'' test_backend =
     (Inr (user_of test_account), test_backend\<lparr>session := Some 0\<rparr>)"
  by (simp add: login_def account_create_email_password_session_def account_get_def
      srv_create_session_def srv_get_def check_params_def email_valid_def min_password_length_def
      find_email_def find_id_def test_backend_def test_account_def)

lemma test_backend_wf: "backend_wf test_backend"
  by (simp add: backend_wf_def test_backend_def test_account_def)

lemma login_sound_witness:
  "backend_wf test_backend \<and>
   login ''jimmuell@aol.com'' ''12345678'' test_backend =
     (Inr (user_of test_account), test_backend\<lparr>session := Some 0\<rparr>) \<and>
   (\<exists>a\<in>set (accounts test_backend). acc_email a = ''jimmuell@aol.com'' \<and>
      acc_password a = ''12345678'' \<and> user_of test_account = user_of a \<and>
      session (test_backend\<lparr>session := Some 0\<rparr>) = Some (acc_id a) \<and>
      accounts (test_backend\<lparr>session := Some 0\<rparr>) = accounts test_backend)"
  using test_backend_wf login_test_credentials
    login_sound [OF test_backend_wf login_test_credentials] by blast

text \<open>C17: a registration whose account creation is delivered but whose session request is
  lost throws, yet leaves the account registered and no session (the orphan account of the
  spec, section 4.2); registering again with the same email then fails with
  \<open>User_already_exists\<close>, so the user can only sign in.\<close>

theorem register_orphan_account:
  assumes wf: "backend_wf b" and net: "links b = [Delivered, Lost_request]"
    and nos: "session b = None" and ev: "email_valid e" and pl: "min_password_length \<le> length pw"
    and fresh: "e \<notin> set (map acc_email (accounts b))"
  shows "\<exists>b'. register e pw n b = (Inl Network_failure, b') \<and>
           e \<in> set (map acc_email (accounts b')) \<and> session b' = None \<and>
           fst (register e pw n' b') = Inl User_already_exists"
proof -
  let ?uid = "id_seed b"
  let ?a = "\<lparr>acc_id = ?uid, acc_email = e, acc_password = pw, acc_name = n, acc_prefs = []\<rparr>"
  let ?b2 = "b\<lparr>id_seed := Suc ?uid, links := [Lost_request], accounts := accounts b @ [?a]\<rparr>"
  have cp: "check_params e pw = None" using ev pl by (simp add: check_params_def)
  have nid: "?uid \<notin> set (map acc_id (accounts b))" using wf by (auto simp: backend_wf_def)
  have c: "account_create ?uid e pw n (b\<lparr>id_seed := Suc ?uid\<rparr>) = (Inr (user_of ?a), ?b2)"
    using net cp nid fresh
    by (simp add: account_create_def remote_call_def srv_create_def find_id_None find_email_None Let_def)
  have r: "register e pw n b = (Inl Network_failure, ?b2\<lparr>links := []\<rparr>)"
    using c net by (simp add: register_def ID_unique_def account_create_email_password_session_def
        remote_call_def)
  have "fst (register e pw n' (?b2\<lparr>links := []\<rparr>)) = Inl User_already_exists"
    using cp fresh by (simp add: register_def ID_unique_def account_create_def srv_create_def
        remote_call_def find_email_append_fresh)
  with r nos show ?thesis by auto
qed

lemma register_orphan_account_witness:
  "backend_wf (empty_backend\<lparr>links := [Delivered, Lost_request]\<rparr>) \<and>
   (\<exists>b'. register ''jim@example.com'' ''12345678'' ''Jim'' (empty_backend\<lparr>links := [Delivered, Lost_request]\<rparr>) =
        (Inl Network_failure, b') \<and>
      ''jim@example.com'' \<in> set (map acc_email (accounts b')) \<and> session b' = None \<and>
      fst (register ''jim@example.com'' ''12345678'' ''Jim'' b') = Inl User_already_exists)"
proof -
  have h: "backend_wf (empty_backend\<lparr>links := [Delivered, Lost_request]\<rparr>)"
    "links (empty_backend\<lparr>links := [Delivered, Lost_request]\<rparr>) = [Delivered, Lost_request]"
    "session (empty_backend\<lparr>links := [Delivered, Lost_request]\<rparr>) = None"
    "email_valid ''jim@example.com''" "min_password_length \<le> length ''12345678''"
    "''jim@example.com'' \<notin> set (map acc_email (accounts (empty_backend\<lparr>links := [Delivered, Lost_request]\<rparr>)))"
    by (simp_all add: empty_backend_def backend_wf_def email_valid_def min_password_length_def)
  show ?thesis using h(1) register_orphan_account [OF h] by blast
qed

text \<open>C23: sign-up, sign-out and sign-in round-trip: on a healthy network, after a successful
  \<open>register\<close> and a \<open>logout\<close>, a \<open>login\<close> with the same email and password returns
  exactly the user \<open>register\<close> returned, and the session designates that account again.\<close>

theorem register_logout_login_roundtrip:
  assumes wf: "backend_wf b" and net: "links b = []" and nos: "session b = None"
    and ev: "email_valid e" and pl: "min_password_length \<le> length pw"
    and fresh: "e \<notin> set (map acc_email (accounts b))"
  shows "\<exists>u b1 b2 b3. register e pw n b = (Inr u, b1) \<and> logout b1 = (Inr (), b2) \<and>
           login e pw b2 = (Inr u, b3) \<and> session b3 = session b1"
proof -
  let ?a = "\<lparr>acc_id = id_seed b, acc_email = e, acc_password = pw, acc_name = n, acc_prefs = []\<rparr>"
  let ?b1 = "b\<lparr>id_seed := Suc (id_seed b), accounts := accounts b @ [?a], session := Some (id_seed b)\<rparr>"
  have cp: "check_params e pw = None" using ev pl by (rule valid_params)
  have nid: "id_seed b \<notin> set (map acc_id (accounts b))" using wf by (auto simp: backend_wf_def)
  have r: "register e pw n b = (Inr (user_of ?a), ?b1)" by (rule register_healthy_eq [OF wf net nos cp fresh refl])
  have l: "logout ?b1 = (Inr (), ?b1\<lparr>session := None\<rparr>)"
    using net by (simp add: logout_def account_delete_session_def srv_delete_session_def)
  have "login e pw (?b1\<lparr>session := None\<rparr>) = (Inr (user_of ?a), ?b1)"
    using net cp fresh nid
    by (simp add: login_def account_create_email_password_session_def srv_create_session_def
        account_get_def srv_get_def find_email_append_fresh find_id_append_fresh)
  with r l show ?thesis by blast
qed

lemma register_logout_login_roundtrip_witness:
  "backend_wf empty_backend \<and> links empty_backend = [] \<and> session empty_backend = None \<and>
   email_valid ''jim@example.com'' \<and> min_password_length \<le> length ''12345678'' \<and>
   ''jim@example.com'' \<notin> set (map acc_email (accounts empty_backend)) \<and>
   (\<exists>u b1 b2 b3. register ''jim@example.com'' ''12345678'' ''Jim'' empty_backend = (Inr u, b1) \<and>
      logout b1 = (Inr (), b2) \<and> login ''jim@example.com'' ''12345678'' b2 = (Inr u, b3) \<and>
      session b3 = session b1)"
proof -
  have h: "backend_wf empty_backend" "links empty_backend = []" "session empty_backend = None"
    "email_valid ''jim@example.com''" "min_password_length \<le> length ''12345678''"
    "''jim@example.com'' \<notin> set (map acc_email (accounts empty_backend))"
    by (simp_all add: empty_backend_def backend_wf_def email_valid_def min_password_length_def)
  show ?thesis using h register_logout_login_roundtrip [OF h] by blast
qed

text \<open>C24: a registration whose first request is lost throws \<open>Network_failure\<close> and
  leaves the accounts and the session as they were (only an id is spent), so pressing the
  button again on a healthy network registers the user: unlike a lost session request
  (C17), a lost account request leaves nothing behind.\<close>

theorem register_lost_request_retry:
  assumes wf: "backend_wf b" and net: "links b = [Lost_request]" and nos: "session b = None"
    and ev: "email_valid e" and pl: "min_password_length \<le> length pw"
    and fresh: "e \<notin> set (map acc_email (accounts b))"
  shows "\<exists>b' u b''. register e pw n b = (Inl Network_failure, b') \<and> accounts b' = accounts b \<and>
           session b' = None \<and> register e pw n b' = (Inr u, b'') \<and> user_email u = e \<and> user_name u = n"
proof -
  let ?b' = "b\<lparr>id_seed := Suc (id_seed b), links := []\<rparr>"
  have r: "register e pw n b = (Inl Network_failure, ?b')"
    using net by (simp add: register_def ID_unique_def account_create_def remote_call_def)
  have wf': "backend_wf ?b'" using wf by (auto simp: backend_wf_def less_SucI split: option.splits)
  have cp: "check_params e pw = None" using ev pl by (rule valid_params)
  have "register e pw n ?b' =
          (Inr (user_of \<lparr>acc_id = Suc (id_seed b), acc_email = e, acc_password = pw, acc_name = n,
                         acc_prefs = []\<rparr>),
           ?b'\<lparr>id_seed := Suc (Suc (id_seed b)),
               accounts := accounts b @ [\<lparr>acc_id = Suc (id_seed b), acc_email = e, acc_password = pw,
                                          acc_name = n, acc_prefs = []\<rparr>],
               session := Some (Suc (id_seed b))\<rparr>)"
    using register_healthy_eq [OF wf' _ _ cp _ refl] nos fresh by simp
  with r nos show ?thesis by (auto simp: user_of_def)
qed

lemma register_lost_request_retry_witness:
  "backend_wf (empty_backend\<lparr>links := [Lost_request]\<rparr>) \<and>
   (\<exists>b' u b''. register ''jim@example.com'' ''12345678'' ''Jim'' (empty_backend\<lparr>links := [Lost_request]\<rparr>) =
        (Inl Network_failure, b') \<and> accounts b' = accounts (empty_backend\<lparr>links := [Lost_request]\<rparr>) \<and>
      session b' = None \<and> register ''jim@example.com'' ''12345678'' ''Jim'' b' = (Inr u, b'') \<and>
      user_email u = ''jim@example.com'' \<and> user_name u = ''Jim'')"
proof -
  have h: "backend_wf (empty_backend\<lparr>links := [Lost_request]\<rparr>)"
    "links (empty_backend\<lparr>links := [Lost_request]\<rparr>) = [Lost_request]"
    "session (empty_backend\<lparr>links := [Lost_request]\<rparr>) = None"
    "email_valid ''jim@example.com''" "min_password_length \<le> length ''12345678''"
    "''jim@example.com'' \<notin> set (map acc_email (accounts (empty_backend\<lparr>links := [Lost_request]\<rparr>)))"
    by (simp_all add: empty_backend_def backend_wf_def email_valid_def min_password_length_def)
  show ?thesis using h(1) register_lost_request_retry [OF h] by blast
qed

end
