(* ===== verification/Layout.thy ===== *)
theory Layout
  imports Auth
begin

text \<open>
  \<open>src/app/_layout.tsx\<close>: the Auth State Container and the Startup Resolver.
  \<open>RootLayout\<close> owns two pieces of React state, \<open>user\<close> and \<open>checking\<close>
  (the record \<open>root_state\<close>); its \<open>useEffect\<close> awaits \<open>account.get()\<close> once
  and then stores the user or \<open>null\<close> and clears \<open>checking\<close>; while
  \<open>checking\<close> holds it renders only an activity indicator, afterwards the navigator
  inside the \<open>AuthContext\<close> provider.  The effect is split at its \<open>await\<close>: the
  call is \<open>account_get\<close> and \<open>startup_resume\<close> is the code after it.
\<close>

section \<open>State and operations\<close>

record root_state =
  user :: "user option"
  checking_flag :: bool

definition root_init :: root_state where
  "root_init = \<lparr>user = None, checking_flag = True\<rparr>"

text \<open>The value of \<open>AuthContext\<close> outside any provider: no user, a setter that does nothing.\<close>

definition auth_context_default :: "user option \<times> (user option \<Rightarrow> root_state \<Rightarrow> root_state)" where
  "auth_context_default = (None, \<lambda>_ r. r)"

text \<open>The setter the provider hands down: React's \<open>setUser\<close>.\<close>

definition set_user :: "user option \<Rightarrow> root_state \<Rightarrow> root_state" where
  "set_user u r = r\<lparr>user := u\<rparr>"

text \<open>The code after \<open>await account.get()\<close>: \<open>try\<close> stores the user, \<open>catch\<close>
  stores \<open>null\<close> whatever the error, \<open>finally\<close> clears \<open>checking\<close>.\<close>

definition startup_resume :: "(remote_error + user) \<Rightarrow> root_state \<Rightarrow> root_state" where
  "startup_resume r s =
     (case r of Inr me \<Rightarrow> set_user (Some me) s | Inl _ \<Rightarrow> set_user None s)\<lparr>checking_flag := False\<rparr>"

definition startup_resolve :: "root_state \<Rightarrow> backend \<Rightarrow> root_state \<times> backend" where
  "startup_resolve s b = (let (r, b') = account_get b in (startup_resume r s, b'))"

datatype root_view = Activity_indicator | Stack_navigator

definition root_render :: "root_state \<Rightarrow> root_view" where
  "root_render s = (if checking_flag s then Activity_indicator else Stack_navigator)"

section \<open>Lemmas\<close>

lemma startup_resume_checking [simp]: "checking_flag (startup_resume r s) = False"
  by (simp add: startup_resume_def split: sum.splits)

lemma startup_resume_user:
  "user (startup_resume r s) = (case r of Inr me \<Rightarrow> Some me | Inl _ \<Rightarrow> None)"
  by (simp add: startup_resume_def set_user_def split: sum.splits)

text \<open>C5: the startup resolver always ends the checking phase, so the navigator is rendered
  afterwards, and it holds a user exactly when \<open>account.get()\<close> returned one; with no
  session at the service it holds none, whatever the network does.\<close>

theorem startup_resolve_outcome:
  assumes "startup_resolve s b = (s', b')"
  shows "root_render s' = Stack_navigator \<and>
         user s' = (case fst (account_get b) of Inr me \<Rightarrow> Some me | Inl _ \<Rightarrow> None) \<and>
         b' = snd (account_get b) \<and>
         (session b = None \<longrightarrow> user s' = None)"
proof -
  obtain r b1 where g: "account_get b = (r, b1)" by (cases "account_get b")
  with assms have s': "s' = startup_resume r s" and b': "b' = b1"
    by (auto simp: startup_resolve_def)
  have "session b = None \<Longrightarrow> \<exists>e. r = Inl e"
    using g by (auto simp: account_get_def remote_call_def srv_get_def split: list.splits link.splits)
  then show ?thesis
    using g s' b' by (auto simp: root_render_def startup_resume_user split: sum.splits)
qed

lemma startup_resolve_outcome_witness:
  "startup_resolve root_init empty_backend = (root_init\<lparr>checking_flag := False\<rparr>, empty_backend) \<and>
   root_render (root_init\<lparr>checking_flag := False\<rparr>) = Stack_navigator \<and>
   user (root_init\<lparr>checking_flag := False\<rparr>) =
     (case fst (account_get empty_backend) of Inr me \<Rightarrow> Some me | Inl _ \<Rightarrow> None) \<and>
   empty_backend = snd (account_get empty_backend) \<and>
   session empty_backend = None \<and> user (root_init\<lparr>checking_flag := False\<rparr>) = None"
proof -
  have h: "startup_resolve root_init empty_backend = (root_init\<lparr>checking_flag := False\<rparr>, empty_backend)"
    by (simp add: startup_resolve_def account_get_def srv_get_def startup_resume_def set_user_def
        root_init_def empty_backend_def)
  have "session empty_backend = None" by (simp add: empty_backend_def)
  then show ?thesis using h startup_resolve_outcome [OF h] by blast
qed

end
