(* ===== verification/Components.thy ===== *)
theory Components
  imports Prelude "HOL-Library.AList"
begin

text \<open>
  \<open>src/components/TextInputField.tsx\<close>: a stateless component that renders its
  \<open>label\<close> above a React Native \<open>TextInput\<close>.  The element tree it returns is a value
  of \<open>element\<close>; a style object is an association list from style keys to values, and a
  style array is flattened left to right, a later object overriding the keys of an earlier
  one (\<open>StyleSheet.flatten\<close>).  The props are \<open>TextInputProps & {label}\<close>, restricted
  to the props the screens pass: the record \<open>input_props\<close> holds what the
  \<open>...rest\<close> spread forwards to the \<open>TextInput\<close>, and \<open>field_props\<close> extends it
  with the two props the component takes out, \<open>label\<close> and \<open>style\<close>.  The type
  \<open>'ev\<close> is what the caller's \<open>onChangeText\<close> dispatches.
\<close>

section \<open>Styles and elements\<close>

datatype style_value = Num nat | Pct nat | Txt string

type_synonym style = "(string \<times> style_value) list"

text \<open>A style prop of an array: \<open>undefined\<close> entries are skipped, later objects win.\<close>

definition style_flatten :: "style option list \<Rightarrow> style" where
  "style_flatten ss = foldl (\<lambda>acc s. case s of None \<Rightarrow> acc | Some st \<Rightarrow> AList.merge acc st) [] ss"

record 'ev input_props =
  ip_value :: string
  ip_on_change_text :: "string \<Rightarrow> 'ev"
  ip_secure_text_entry :: bool
  ip_auto_capitalize :: "string option"
  ip_keyboard_type :: "string option"

record 'ev field_props = "'ev input_props" +
  fp_label :: string
  fp_style :: "style option"

datatype 'ev element =
    View_el style "'ev element list"
  | Text_el style string
  | Text_input_el style "'ev input_props"

section \<open>The component\<close>

definition field_box_style :: style where
  "field_box_style = [(''width'', Pct 100), (''marginBottom'', Num 12)]"

definition label_style :: style where
  "label_style = [(''marginBottom'', Num 6), (''fontWeight'', Txt ''600'')]"

definition input_base_style :: style where
  "input_base_style =
     [(''height'', Num 44), (''borderWidth'', Num 1), (''borderColor'', Txt ''#ccc''),
      (''borderRadius'', Num 8), (''paddingHorizontal'', Num 12)]"

text \<open>\<open>({label, style, ...rest}) => <View><Text>{label}</Text><TextInput style={[base, style]}
  {...rest}/></View>\<close>: \<open>input_props.truncate\<close> is the \<open>...rest\<close> of the props.\<close>

definition TextInputField :: "'ev field_props \<Rightarrow> 'ev element" where
  "TextInputField p =
     View_el field_box_style
       [Text_el label_style (fp_label p),
        Text_input_el (style_flatten [Some input_base_style, fp_style p]) (input_props.truncate p)]"

section \<open>Reading an element tree\<close>

text \<open>The text inputs of a tree and the texts it shows, in document order; typing into an
  input calls its \<open>onChangeText\<close>.\<close>

fun inputs_of :: "'ev element \<Rightarrow> 'ev input_props list"
  and inputs_of_list :: "'ev element list \<Rightarrow> 'ev input_props list" where
  "inputs_of (View_el _ es) = inputs_of_list es"
| "inputs_of (Text_el _ _) = []"
| "inputs_of (Text_input_el _ ip) = [ip]"
| "inputs_of_list [] = []"
| "inputs_of_list (e # es) = inputs_of e @ inputs_of_list es"

fun texts_of :: "'ev element \<Rightarrow> string list"
  and texts_of_list :: "'ev element list \<Rightarrow> string list" where
  "texts_of (View_el _ es) = texts_of_list es"
| "texts_of (Text_el _ t) = [t]"
| "texts_of (Text_input_el _ _) = []"
| "texts_of_list [] = []"
| "texts_of_list (e # es) = texts_of e @ texts_of_list es"

fun input_styles :: "'ev element \<Rightarrow> style list"
  and input_styles_list :: "'ev element list \<Rightarrow> style list" where
  "input_styles (View_el _ es) = input_styles_list es"
| "input_styles (Text_el _ _) = []"
| "input_styles (Text_input_el st _) = [st]"
| "input_styles_list [] = []"
| "input_styles_list (e # es) = input_styles e @ input_styles_list es"

text \<open>The text inputs of a column of fields, as a screen renders them.\<close>

definition rendered_inputs :: "'ev field_props list \<Rightarrow> 'ev input_props list" where
  "rendered_inputs ps = inputs_of_list (map TextInputField ps)"

section \<open>Lemmas\<close>

lemma TextInputField_reads [simp]:
  "inputs_of (TextInputField p) = [input_props.truncate p]"
  "texts_of (TextInputField p) = [fp_label p]"
  by (simp_all add: TextInputField_def)

lemma TextInputField_style [simp]:
  "input_styles (TextInputField p) = [style_flatten [Some input_base_style, fp_style p]]"
  by (simp add: TextInputField_def)

lemma truncate_fields [simp]:
  "ip_value (input_props.truncate p) = ip_value p"
  "ip_on_change_text (input_props.truncate p) = ip_on_change_text p"
  "ip_secure_text_entry (input_props.truncate p) = ip_secure_text_entry p"
  "ip_auto_capitalize (input_props.truncate p) = ip_auto_capitalize p"
  "ip_keyboard_type (input_props.truncate p) = ip_keyboard_type p"
  by (simp_all add: input_props.defs)

lemma rendered_inputs_truncate [simp]: "rendered_inputs ps = map input_props.truncate ps"
  by (induction ps) (simp_all add: rendered_inputs_def)

lemma style_flatten_snoc:
  "style_flatten (ss @ [s]) =
     (case s of None \<Rightarrow> style_flatten ss | Some st \<Rightarrow> AList.merge (style_flatten ss) st)"
  by (simp add: style_flatten_def split: option.splits)

text \<open>Flattening as maps: each object present overrides the ones before it.\<close>

lemma map_of_style_flatten:
  "map_of (style_flatten ss) = foldl (\<lambda>m s. case s of None \<Rightarrow> m | Some st \<Rightarrow> m ++ map_of st) Map.empty ss"
proof (induction ss rule: rev_induct)
  case Nil
  then show ?case by (simp add: style_flatten_def)
next
  case (snoc s ss)
  then show ?case by (simp add: style_flatten_snoc merge_conv' split: option.splits)
qed

text \<open>C30: the \<open>TextInput\<close> that \<open>TextInputField\<close> renders has, for every style key,
  the caller's value when the caller's \<open>style\<close> sets it and the component's default
  otherwise: the caller's style is applied over the defaults, never under them.\<close>

theorem text_input_style:
  "input_styles (TextInputField p) = [st] \<Longrightarrow>
     map_of st k = (case fp_style p of None \<Rightarrow> map_of input_base_style k
                    | Some cs \<Rightarrow> (case map_of cs k of None \<Rightarrow> map_of input_base_style k | Some v \<Rightarrow> Some v))"
  by (auto simp: map_of_style_flatten map_add_def split: option.splits)

lemma text_input_style_witness:
  "input_styles (TextInputField (\<lparr>ip_value = [], ip_on_change_text = (id :: string \<Rightarrow> string),
       ip_secure_text_entry = False, ip_auto_capitalize = None, ip_keyboard_type = None,
       fp_label = ''Email'', fp_style = Some [(''height'', Num 50)]\<rparr>)) =
     [style_flatten [Some input_base_style, Some [(''height'', Num 50)]]] \<and>
   map_of (style_flatten [Some input_base_style, Some [(''height'', Num 50)]]) ''height'' = Some (Num 50) \<and>
   map_of (style_flatten [Some input_base_style, Some [(''height'', Num 50)]]) ''borderRadius'' = Some (Num 8)"
proof -
  let ?p = "\<lparr>ip_value = [], ip_on_change_text = id :: string \<Rightarrow> string, ip_secure_text_entry = False,
       ip_auto_capitalize = None, ip_keyboard_type = None, fp_label = ''Email'',
       fp_style = Some [(''height'', Num 50)]\<rparr>"
  have h: "input_styles (TextInputField ?p) = [style_flatten [Some input_base_style, Some [(''height'', Num 50)]]]"
    by simp
  have "map_of (style_flatten [Some input_base_style, Some [(''height'', Num 50)]]) k =
        (case map_of [(''height'', Num 50)] k of None \<Rightarrow> map_of input_base_style k | Some v \<Rightarrow> Some v)" for k
    using text_input_style [OF h, of k] by simp
  then show ?thesis using h by (simp add: input_base_style_def)
qed

end
