(* ===== verification/Screens.thy ===== *)
theory Screens
  imports Layout Components
begin

text \<open>
  The screens of \<open>src/app\<close>: \<open>index.tsx\<close> (Welcome), \<open>(auth)/login.tsx\<close>,
  \<open>(auth)/register.tsx\<close> and \<open>home.tsx\<close>.  Each render reads the context's user and
  either returns \<open><Redirect href=...>\<close> or the screen (the View Gate); each screen's
  \<open>useState\<close> fields are a record; each async handler is split at its \<open>await\<close>
  into \<open>on_*_begin\<close> (the validation and \<open>setLoading(true)\<close> before the call, with
  the arguments it passes) and \<open>on_*_end\<close> (the \<open>try/catch/finally\<close> after it).
  \<open>Alert.alert(title, message)\<close> is a value of \<open>alert\<close>.  The \<open>TextInputField\<close>s of
  the two forms are lists of \<open>field_props\<close> whose \<open>onChangeText\<close> is a \<open>form_edit\<close>,
  the \<open>useState\<close> setter it calls.
\<close>

section \<open>Routes, views and alerts\<close>

datatype screen = Index_screen | Login_screen | Register_screen | Home_screen

fun href :: "screen \<Rightarrow> string" where
  "href Index_screen = ''/''"
| "href Login_screen = ''/(auth)/login''"
| "href Register_screen = ''/(auth)/register''"
| "href Home_screen = ''/home''"

datatype alert = Alert string string

text \<open>What a screen renders: a redirect, or the screen with the values it shows and whether
  its submit button is disabled.\<close>

datatype view =
    Redirect screen
  | Welcome_view
  | Login_view string string bool
  | Register_view string string string bool
  | Home_view string string bool

fun redirect_of :: "view \<Rightarrow> screen option" where
  "redirect_of (Redirect t) = Some t"
| "redirect_of _ = None"

text \<open>The alert of a failed call: \<open>Alert.alert(title, e?.message ?? 'Unknown error')\<close>.\<close>

definition failure_alert :: "string \<Rightarrow> remote_error \<Rightarrow> alert" where
  "failure_alert title e = Alert title (js_nullish (error_message e) ''Unknown error'')"

datatype 'a submit = Rejected alert | Submitted 'a

text \<open>The \<open>useState\<close> setters the screens pass as \<open>onChangeText\<close> of their fields.\<close>

datatype form_edit =
    Set_login_email string | Set_login_password string
  | Set_register_name string | Set_register_email string | Set_register_password string

section \<open>Welcome screen (index.tsx)\<close>

definition index_render :: "user option \<Rightarrow> view" where
  "index_render u = (case u of Some _ \<Rightarrow> Redirect Home_screen | None \<Rightarrow> Welcome_view)"

section \<open>Login screen (login.tsx)\<close>

record login_form =
  lf_email :: string
  lf_password :: string
  lf_loading :: bool

definition login_form_init :: login_form where
  "login_form_init = \<lparr>lf_email = [], lf_password = [], lf_loading = False\<rparr>"

definition login_render :: "user option \<Rightarrow> login_form \<Rightarrow> view" where
  "login_render u f =
     (case u of Some _ \<Rightarrow> Redirect Home_screen
      | None \<Rightarrow> Login_view (lf_email f) (lf_password f) (lf_loading f))"

text \<open>The two \<open>TextInputField\<close>s of the login screen.\<close>

definition login_fields :: "login_form \<Rightarrow> form_edit field_props list" where
  "login_fields f =
     [\<lparr>ip_value = lf_email f, ip_on_change_text = Set_login_email, ip_secure_text_entry = False,
       ip_auto_capitalize = Some ''none'', ip_keyboard_type = Some ''email-address'',
       fp_label = ''Email'', fp_style = None\<rparr>,
      \<lparr>ip_value = lf_password f, ip_on_change_text = Set_login_password, ip_secure_text_entry = True,
       ip_auto_capitalize = None, ip_keyboard_type = None, fp_label = ''Password'', fp_style = None\<rparr>]"

definition fill_test_credentials :: "login_form \<Rightarrow> login_form" where
  "fill_test_credentials f = f\<lparr>lf_email := ''jimmuell@aol.com'', lf_password := ''12345678''\<rparr>"

definition on_login_begin :: "login_form \<Rightarrow> (login_form \<times> string \<times> string) submit" where
  "on_login_begin f =
     (if lf_email f = [] \<or> lf_password f = []
      then Rejected (Alert ''Missing info'' ''Please enter email and password.'')
      else Submitted (f\<lparr>lf_loading := True\<rparr>, js_trim (lf_email f), lf_password f))"

definition on_login_end ::
  "(remote_error + user) \<Rightarrow> root_state \<Rightarrow> login_form \<Rightarrow> root_state \<times> login_form \<times> alert list" where
  "on_login_end r s f =
     (case r of
        Inr me \<Rightarrow> (set_user (Some me) s, f\<lparr>lf_loading := False\<rparr>, [])
      | Inl e \<Rightarrow> (s, f\<lparr>lf_loading := False\<rparr>, [failure_alert ''Login failed'' e]))"

section \<open>Register screen (register.tsx)\<close>

record register_form =
  rf_name :: string
  rf_email :: string
  rf_password :: string
  rf_loading :: bool

definition register_form_init :: register_form where
  "register_form_init = \<lparr>rf_name = [], rf_email = [], rf_password = [], rf_loading = False\<rparr>"

definition register_render :: "user option \<Rightarrow> register_form \<Rightarrow> view" where
  "register_render u f =
     (case u of Some _ \<Rightarrow> Redirect Home_screen
      | None \<Rightarrow> Register_view (rf_name f) (rf_email f) (rf_password f) (rf_loading f))"

text \<open>The three \<open>TextInputField\<close>s of the register screen.\<close>

definition register_fields :: "register_form \<Rightarrow> form_edit field_props list" where
  "register_fields f =
     [\<lparr>ip_value = rf_name f, ip_on_change_text = Set_register_name, ip_secure_text_entry = False,
       ip_auto_capitalize = None, ip_keyboard_type = None, fp_label = ''Name'', fp_style = None\<rparr>,
      \<lparr>ip_value = rf_email f, ip_on_change_text = Set_register_email, ip_secure_text_entry = False,
       ip_auto_capitalize = Some ''none'', ip_keyboard_type = Some ''email-address'',
       fp_label = ''Email'', fp_style = None\<rparr>,
      \<lparr>ip_value = rf_password f, ip_on_change_text = Set_register_password,
       ip_secure_text_entry = True, ip_auto_capitalize = None, ip_keyboard_type = None,
       fp_label = ''Password'', fp_style = None\<rparr>]"

definition on_register_begin ::
  "register_form \<Rightarrow> (register_form \<times> string \<times> string \<times> string) submit" where
  "on_register_begin f =
     (if rf_name f = [] \<or> rf_email f = [] \<or> rf_password f = []
      then Rejected (Alert ''Missing info'' ''Please enter name, email, and password.'')
      else Submitted (f\<lparr>rf_loading := True\<rparr>, js_trim (rf_email f), rf_password f, js_trim (rf_name f)))"

definition on_register_end ::
  "(remote_error + user) \<Rightarrow> root_state \<Rightarrow> register_form \<Rightarrow> root_state \<times> register_form \<times> alert list" where
  "on_register_end r s f =
     (case r of
        Inr me \<Rightarrow> (set_user (Some me) s, f\<lparr>rf_loading := False\<rparr>, [])
      | Inl e \<Rightarrow> (s, f\<lparr>rf_loading := False\<rparr>, [failure_alert ''Register failed'' e]))"

section \<open>Home screen (home.tsx)\<close>

text \<open>\<open>Hello{user?.name ? `, ${user.name}` : ''}!\<close>: an empty name is falsy.\<close>

definition home_greeting :: "user \<Rightarrow> string" where
  "home_greeting u = ''Hello'' @ (if user_name u \<noteq> [] then '', '' @ user_name u else []) @ ''!''"

definition home_render :: "user option \<Rightarrow> bool \<Rightarrow> view" where
  "home_render u loading =
     (case u of None \<Rightarrow> Redirect Index_screen
      | Some me \<Rightarrow> Home_view (home_greeting me) (user_email me) loading)"

text \<open>\<open>onLogout\<close> validates nothing: \<open>setLoading(true)\<close>, then \<open>await logout()\<close>.\<close>

definition on_logout_begin :: "bool \<Rightarrow> bool" where
  "on_logout_begin loading = True"

definition on_logout_end ::
  "(remote_error + unit) \<Rightarrow> root_state \<Rightarrow> bool \<Rightarrow> root_state \<times> bool \<times> alert list" where
  "on_logout_end r s loading =
     (case r of
        Inr _ \<Rightarrow> (set_user None s, False, [])
      | Inl e \<Rightarrow> (s, False, [failure_alert ''Logout failed'' e]))"

section \<open>The View Gate\<close>

text \<open>The screen mounted at a route, rendered against the context's user and the screens'
  local state.\<close>

fun render_screen :: "user option \<Rightarrow> login_form \<Rightarrow> register_form \<Rightarrow> bool \<Rightarrow> screen \<Rightarrow> view" where
  "render_screen u lf rf hl Index_screen = index_render u"
| "render_screen u lf rf hl Login_screen = login_render u lf"
| "render_screen u lf rf hl Register_screen = register_render u rf"
| "render_screen u lf rf hl Home_screen = home_render u hl"

text \<open>The gate as the spec's table (section 4.4) states it: authenticated users are sent
  from welcome, login and register to home; unauthenticated ones from home to welcome.\<close>

definition gate_spec :: "bool \<Rightarrow> screen \<Rightarrow> screen option" where
  "gate_spec authenticated sc =
     (if authenticated \<and> sc \<in> {Index_screen, Login_screen, Register_screen} then Some Home_screen
      else if \<not> authenticated \<and> sc = Home_screen then Some Index_screen
      else None)"

section \<open>Lemmas\<close>

lemmas render_defs = index_render_def login_render_def register_render_def home_render_def

text \<open>C6: the screens' renders implement the spec's gate table: for every user, screen and
  local state, a screen redirects exactly where the table says, and otherwise renders.\<close>

theorem view_gate_refines_spec:
  "redirect_of (render_screen u lf rf hl sc) = gate_spec (u \<noteq> None) sc"
  by (cases sc; cases u) (simp_all add: gate_spec_def render_defs)

text \<open>C7: the gate never redirects twice: the screen a redirect leads to renders itself for
  the same user, whatever its local state, so navigation driven by the gate stops after at
  most one redirect.\<close>

theorem gate_no_redirect_loop:
  assumes "render_screen u lf rf hl sc = Redirect t"
  shows "redirect_of (render_screen u lf' rf' hl' t) = None"
  using assms by (cases sc; cases t; cases u) (simp_all add: render_defs)

lemma gate_no_redirect_loop_witness:
  "render_screen None login_form_init register_form_init False Home_screen = Redirect Index_screen \<and>
   redirect_of (render_screen None login_form_init register_form_init False Index_screen) = None"
proof -
  have h: "render_screen None login_form_init register_form_init False Home_screen = Redirect Index_screen"
    by (simp add: home_render_def)
  show ?thesis using h gate_no_redirect_loop [OF h] by blast
qed

text \<open>C8: the login handler's validation: an empty email or password field is rejected with
  the "Missing info" alert before any call; otherwise a call is submitted that disables the
  button and receives the password as typed and the email field with exactly its leading
  and trailing whitespace removed: the field is \<open>a @ e @ b\<close> with \<open>a\<close> and \<open>b\<close>
  whitespace and \<open>e\<close> empty or starting and ending with a non-whitespace character.\<close>

theorem on_login_begin_validation:
  "(lf_email f = [] \<or> lf_password f = [] \<longrightarrow>
      on_login_begin f = Rejected (Alert ''Missing info'' ''Please enter email and password.'')) \<and>
   (lf_email f \<noteq> [] \<and> lf_password f \<noteq> [] \<longrightarrow>
      (\<exists>e a b. on_login_begin f = Submitted (f\<lparr>lf_loading := True\<rparr>, e, lf_password f) \<and>
         lf_email f = a @ e @ b \<and> (\<forall>c\<in>set (a @ b). js_whitespace c) \<and>
         (e = [] \<or> \<not> js_whitespace (hd e) \<and> \<not> js_whitespace (last e))))"
  using js_trim_infix [of "lf_email f"] js_trim_hd [of "lf_email f"] js_trim_last [of "lf_email f"]
  by (auto simp: on_login_begin_def)

lemma on_login_begin_validation_witness:
  "lf_email login_form_init = [] \<and>
   on_login_begin login_form_init =
     Rejected (Alert ''Missing info'' ''Please enter email and password.'') \<and>
   lf_email \<lparr>lf_email = '' jim@example.com '', lf_password = ''12345678'', lf_loading = False\<rparr> \<noteq> [] \<and>
   on_login_begin \<lparr>lf_email = '' jim@example.com '', lf_password = ''12345678'', lf_loading = False\<rparr> =
     Submitted (\<lparr>lf_email = '' jim@example.com '', lf_password = ''12345678'', lf_loading = True\<rparr>,
                ''jim@example.com'', ''12345678'') \<and>
   '' jim@example.com '' = '' '' @ ''jim@example.com'' @ '' ''"
proof -
  let ?f = "\<lparr>lf_email = '' jim@example.com '', lf_password = ''12345678'', lf_loading = False\<rparr>"
  have e: "lf_email login_form_init = []" by (simp add: login_form_init_def)
  have ne: "lf_email ?f \<noteq> [] \<and> lf_password ?f \<noteq> []" by simp
  have s: "on_login_begin ?f = Submitted (?f\<lparr>lf_loading := True\<rparr>, ''jim@example.com'', ''12345678'')"
    by (simp add: on_login_begin_def js_trim_def js_whitespace_def)
  show ?thesis
    using e ne s on_login_begin_validation [of login_form_init] on_login_begin_validation [of ?f]
    by simp
qed

text \<open>C9: the validation tests the untrimmed field, so an email made only of whitespace
  passes it and the call is made with the empty email: the check the spec places before
  the Session Client does not stop it.\<close>

theorem whitespace_email_submitted:
  assumes "lf_email f \<noteq> []" and "\<forall>c\<in>set (lf_email f). js_whitespace c" and "lf_password f \<noteq> []"
  shows "on_login_begin f = Submitted (f\<lparr>lf_loading := True\<rparr>, [], lf_password f)"
  using assms by (simp add: on_login_begin_def js_trim_Nil_iff)

lemma whitespace_email_submitted_witness:
  "on_login_begin \<lparr>lf_email = '' '', lf_password = ''12345678'', lf_loading = False\<rparr> =
     Submitted (\<lparr>lf_email = '' '', lf_password = ''12345678'', lf_loading = True\<rparr>, [], ''12345678'')"
proof -
  have h: "lf_email \<lparr>lf_email = '' '', lf_password = ''12345678'', lf_loading = False\<rparr> \<noteq> []"
    "\<forall>c\<in>set (lf_email \<lparr>lf_email = '' '', lf_password = ''12345678'', lf_loading = False\<rparr>).
       js_whitespace c"
    "lf_password \<lparr>lf_email = '' '', lf_password = ''12345678'', lf_loading = False\<rparr> \<noteq> []"
    by (simp_all add: js_whitespace_def)
  show ?thesis using whitespace_email_submitted [OF h] by simp
qed

end
