(* ===== verification/System.thy ===== *)
theory System
  imports Screens "HOL-Library.Multiset"
begin

text \<open>
  The whole app as one state machine.  Its state \<open>app\<close> gathers the React state of
  \<open>RootLayout\<close> (\<open>root\<close>), the route on top of the navigation stack, the local state
  of the mounted login, register and home screens with the instance each belongs to, the
  in-flight calls (\<open>tasks\<close>, a multiset: JavaScript resumes them in any order), the
  alerts shown so far, and the service.

  A task is an async flow suspended at one \<open>await\<close>: the startup effect, \<open>onLogin\<close>
  inside \<open>auth.login\<close> (two round-trips), \<open>onRegister\<close> inside
  \<open>auth.register\<close> (three), \<open>onLogout\<close> inside \<open>auth.logout\<close> (one).  Completing
  a task performs its round-trip and runs the code up to the next \<open>await\<close> or the end
  of the handler, so flows interleave at their awaits exactly.  A handler's
  \<open>setLoading\<close> acts only on the screen instance that started it (after unmounting it is
  a no-op); \<open>setUser\<close> and \<open>Alert.alert\<close> act globally.

  User events are enabled only on the screen that is displayed (not while checking, and
  not while it renders a redirect), and a button only while it is not disabled.  Every
  navigation (a \<open>Link\<close> or a followed \<open>Redirect\<close>) mounts a fresh instance of its
  target screen.
\<close>

section \<open>State\<close>

datatype task =
    Startup_get
  | Login_session nat string string
  | Login_get nat
  | Register_create nat nat string string string
  | Register_session nat string string
  | Register_get nat
  | Logout_delete nat

record app =
  root :: root_state
  route :: screen
  lform :: login_form
  login_id :: nat
  rform :: register_form
  register_id :: nat
  home_loading :: bool
  home_id :: nat
  mount_seq :: nat
  tasks :: "task multiset"
  alerts :: "alert list"
  server :: backend

datatype event =
    Complete task
  | Follow_redirect
  | Link_sign_in
  | Link_create_account
  | Link_login_to_register
  | Type_login_email string
  | Type_login_password string
  | Use_test_credentials
  | Press_sign_in
  | Type_register_name string
  | Type_register_email string
  | Type_register_password string
  | Press_create_account
  | Press_sign_out

text \<open>The process starts with \<open>RootLayout\<close> mounted at \<open>/\<close> and its effect in flight.\<close>

definition app_init :: "backend \<Rightarrow> app" where
  "app_init b =
     \<lparr>root = root_init, route = Index_screen, lform = login_form_init, login_id = 0,
      rform = register_form_init, register_id = 0, home_loading = False, home_id = 0,
      mount_seq = 1, tasks = {#Startup_get#}, alerts = [], server = b\<rparr>"

definition current_view :: "app \<Rightarrow> view" where
  "current_view s =
     render_screen (user (root s)) (lform s) (rform s) (home_loading s) (route s)"

definition shown :: "app \<Rightarrow> screen \<Rightarrow> bool" where
  "shown s sc \<longleftrightarrow>
     \<not> checking_flag (root s) \<and> route s = sc \<and> redirect_of (current_view s) = None"

section \<open>Navigation\<close>

fun mount :: "screen \<Rightarrow> app \<Rightarrow> app" where
  "mount Index_screen s = s\<lparr>route := Index_screen\<rparr>"
| "mount Login_screen s =
     s\<lparr>route := Login_screen, lform := login_form_init, login_id := mount_seq s,
       mount_seq := Suc (mount_seq s)\<rparr>"
| "mount Register_screen s =
     s\<lparr>route := Register_screen, rform := register_form_init, register_id := mount_seq s,
       mount_seq := Suc (mount_seq s)\<rparr>"
| "mount Home_screen s =
     s\<lparr>route := Home_screen, home_loading := False, home_id := mount_seq s,
       mount_seq := Suc (mount_seq s)\<rparr>"

section \<open>Resuming the handlers\<close>

definition login_finish :: "nat \<Rightarrow> (remote_error + user) \<Rightarrow> app \<Rightarrow> app" where
  "login_finish k r s =
     (let (rt, f, als) = on_login_end r (root s) (lform s)
      in s\<lparr>root := rt, lform := (if k = login_id s then f else lform s), alerts := alerts s @ als\<rparr>)"

definition register_finish :: "nat \<Rightarrow> (remote_error + user) \<Rightarrow> app \<Rightarrow> app" where
  "register_finish k r s =
     (let (rt, f, als) = on_register_end r (root s) (rform s)
      in s\<lparr>root := rt, rform := (if k = register_id s then f else rform s),
            alerts := alerts s @ als\<rparr>)"

definition logout_finish :: "nat \<Rightarrow> (remote_error + unit) \<Rightarrow> app \<Rightarrow> app" where
  "logout_finish k r s =
     (let (rt, l, als) = on_logout_end r (root s) (home_loading s)
      in s\<lparr>root := rt, home_loading := (if k = home_id s then l else home_loading s),
            alerts := alerts s @ als\<rparr>)"

text \<open>One round-trip of a suspended flow, then its code up to the next \<open>await\<close>.\<close>

fun run_task :: "task \<Rightarrow> app \<Rightarrow> app" where
  "run_task Startup_get s =
     (let (r, b) = account_get (server s) in s\<lparr>root := startup_resume r (root s), server := b\<rparr>)"
| "run_task (Login_session k e p) s =
     (let (r, b) = account_create_email_password_session e p (server s)
      in case r of
           Inr _ \<Rightarrow> s\<lparr>server := b, tasks := tasks s + {#Login_get k#}\<rparr>
         | Inl err \<Rightarrow> login_finish k (Inl err) (s\<lparr>server := b\<rparr>))"
| "run_task (Login_get k) s =
     (let (r, b) = account_get (server s) in login_finish k r (s\<lparr>server := b\<rparr>))"
| "run_task (Register_create k uid e p n) s =
     (let (r, b) = account_create uid e p n (server s)
      in case r of
           Inr _ \<Rightarrow> s\<lparr>server := b, tasks := tasks s + {#Register_session k e p#}\<rparr>
         | Inl err \<Rightarrow> register_finish k (Inl err) (s\<lparr>server := b\<rparr>))"
| "run_task (Register_session k e p) s =
     (let (r, b) = account_create_email_password_session e p (server s)
      in case r of
           Inr _ \<Rightarrow> s\<lparr>server := b, tasks := tasks s + {#Register_get k#}\<rparr>
         | Inl err \<Rightarrow> register_finish k (Inl err) (s\<lparr>server := b\<rparr>))"
| "run_task (Register_get k) s =
     (let (r, b) = account_get (server s) in register_finish k r (s\<lparr>server := b\<rparr>))"
| "run_task (Logout_delete k) s =
     (let (r, b) = logout (server s) in logout_finish k r (s\<lparr>server := b\<rparr>))"

section \<open>Starting the handlers\<close>

definition press_sign_in :: "app \<Rightarrow> app" where
  "press_sign_in s =
     (case on_login_begin (lform s) of
        Rejected a \<Rightarrow> s\<lparr>alerts := alerts s @ [a]\<rparr>
      | Submitted (f, e, p) \<Rightarrow> s\<lparr>lform := f, tasks := tasks s + {#Login_session (login_id s) e p#}\<rparr>)"

text \<open>\<open>register()\<close> evaluates \<open>ID.unique()\<close> before its first \<open>await\<close>.\<close>

definition press_create_account :: "app \<Rightarrow> app" where
  "press_create_account s =
     (case on_register_begin (rform s) of
        Rejected a \<Rightarrow> s\<lparr>alerts := alerts s @ [a]\<rparr>
      | Submitted (f, e, p, n) \<Rightarrow>
          (let (uid, b) = ID_unique (server s)
           in s\<lparr>rform := f, server := b,
                 tasks := tasks s + {#Register_create (register_id s) uid e p n#}\<rparr>))"

definition press_sign_out :: "app \<Rightarrow> app" where
  "press_sign_out s =
     s\<lparr>home_loading := on_logout_begin (home_loading s),
       tasks := tasks s + {#Logout_delete (home_id s)#}\<rparr>"

section \<open>The step function\<close>

text \<open>\<open>None\<close>: the event is not possible in this state.\<close>

fun app_step :: "app \<Rightarrow> event \<Rightarrow> app option" where
  "app_step s (Complete t) =
     (if t \<in># tasks s then Some (run_task t (s\<lparr>tasks := tasks s - {#t#}\<rparr>)) else None)"
| "app_step s Follow_redirect =
     (if checking_flag (root s) then None
      else case redirect_of (current_view s) of None \<Rightarrow> None | Some t \<Rightarrow> Some (mount t s))"
| "app_step s Link_sign_in =
     (if shown s Index_screen then Some (mount Login_screen s) else None)"
| "app_step s Link_create_account =
     (if shown s Index_screen then Some (mount Register_screen s) else None)"
| "app_step s Link_login_to_register =
     (if shown s Login_screen then Some (mount Register_screen s) else None)"
| "app_step s (Type_login_email v) =
     (if shown s Login_screen then Some (s\<lparr>lform := (lform s)\<lparr>lf_email := v\<rparr>\<rparr>) else None)"
| "app_step s (Type_login_password v) =
     (if shown s Login_screen then Some (s\<lparr>lform := (lform s)\<lparr>lf_password := v\<rparr>\<rparr>) else None)"
| "app_step s Use_test_credentials =
     (if shown s Login_screen then Some (s\<lparr>lform := fill_test_credentials (lform s)\<rparr>) else None)"
| "app_step s Press_sign_in =
     (if shown s Login_screen \<and> \<not> lf_loading (lform s) then Some (press_sign_in s) else None)"
| "app_step s (Type_register_name v) =
     (if shown s Register_screen then Some (s\<lparr>rform := (rform s)\<lparr>rf_name := v\<rparr>\<rparr>) else None)"
| "app_step s (Type_register_email v) =
     (if shown s Register_screen then Some (s\<lparr>rform := (rform s)\<lparr>rf_email := v\<rparr>\<rparr>) else None)"
| "app_step s (Type_register_password v) =
     (if shown s Register_screen then Some (s\<lparr>rform := (rform s)\<lparr>rf_password := v\<rparr>\<rparr>) else None)"
| "app_step s Press_create_account =
     (if shown s Register_screen \<and> \<not> rf_loading (rform s) then Some (press_create_account s)
      else None)"
| "app_step s Press_sign_out =
     (if shown s Home_screen \<and> \<not> home_loading s then Some (press_sign_out s) else None)"

fun app_run :: "app \<Rightarrow> event list \<Rightarrow> app option" where
  "app_run s [] = Some s"
| "app_run s (e # es) = (case app_step s e of None \<Rightarrow> None | Some s' \<Rightarrow> app_run s' es)"

text \<open>The event a field's \<open>onChangeText\<close> setter dispatches, and the fields the
  screen at a route renders.\<close>

fun edit_event :: "form_edit \<Rightarrow> event" where
  "edit_event (Set_login_email v) = Type_login_email v"
| "edit_event (Set_login_password v) = Type_login_password v"
| "edit_event (Set_register_name v) = Type_register_name v"
| "edit_event (Set_register_email v) = Type_register_email v"
| "edit_event (Set_register_password v) = Type_register_password v"

fun screen_fields :: "app \<Rightarrow> screen \<Rightarrow> form_edit field_props list" where
  "screen_fields s Login_screen = login_fields (lform s)"
| "screen_fields s Register_screen = register_fields (rform s)"
| "screen_fields s _ = []"

inductive reachable :: "backend \<Rightarrow> app \<Rightarrow> bool" for b where
  init: "reachable b (app_init b)"
| step: "reachable b s \<Longrightarrow> app_step s e = Some s' \<Longrightarrow> reachable b s'"

section \<open>Invariants\<close>

text \<open>\<open>inv_phase\<close>: while \<open>checking\<close> holds only the resolver's call is in flight, the
  route is \<open>/\<close> and no alert was shown; afterwards the resolver is gone for good.\<close>

definition inv_phase :: "app \<Rightarrow> bool" where
  "inv_phase s \<longleftrightarrow>
     (if checking_flag (root s)
      then tasks s = {#Startup_get#} \<and> route s = Index_screen \<and> alerts s = []
      else Startup_get \<notin># tasks s)"

fun login_task :: "nat \<Rightarrow> task \<Rightarrow> bool" where
  "login_task i (Login_session k _ _) = (k = i)"
| "login_task i (Login_get k) = (k = i)"
| "login_task i _ = False"

fun register_task :: "nat \<Rightarrow> task \<Rightarrow> bool" where
  "register_task i (Register_create k _ _ _ _) = (k = i)"
| "register_task i (Register_session k _ _) = (k = i)"
| "register_task i (Register_get k) = (k = i)"
| "register_task i _ = False"

fun logout_task :: "nat \<Rightarrow> task \<Rightarrow> bool" where
  "logout_task i (Logout_delete k) = (k = i)"
| "logout_task i _ = False"

fun task_owner :: "task \<Rightarrow> nat" where
  "task_owner Startup_get = 0"
| "task_owner (Login_session k _ _) = k"
| "task_owner (Login_get k) = k"
| "task_owner (Register_create k _ _ _ _) = k"
| "task_owner (Register_session k _ _) = k"
| "task_owner (Register_get k) = k"
| "task_owner (Logout_delete k) = k"

text \<open>The calls in flight that belong to one screen instance, by kind, and \<open>inv_loading\<close>:
  instance ids are issued by \<open>mount_seq\<close>, and a mounted screen has one call in flight
  exactly while its \<open>loading\<close> flag disables its button.\<close>

definition inflight :: "(nat \<Rightarrow> task \<Rightarrow> bool) \<Rightarrow> nat \<Rightarrow> app \<Rightarrow> nat" where
  "inflight P i s = size (filter_mset (P i) (tasks s))"

definition inv_loading :: "app \<Rightarrow> bool" where
  "inv_loading s \<longleftrightarrow>
     login_id s < mount_seq s \<and> register_id s < mount_seq s \<and> home_id s < mount_seq s \<and>
     (\<forall>t\<in>#tasks s. task_owner t < mount_seq s) \<and>
     inflight login_task (login_id s) s = (if lf_loading (lform s) then 1 else 0) \<and>
     inflight register_task (register_id s) s = (if rf_loading (rform s) then 1 else 0) \<and>
     inflight logout_task (home_id s) s = (if home_loading s then 1 else 0)"

text \<open>\<open>inv_server\<close>: the service is well formed and every registration in flight
  carries an id already issued by \<open>ID.unique()\<close>.\<close>

fun uid_issued :: "nat \<Rightarrow> task \<Rightarrow> bool" where
  "uid_issued n (Register_create _ uid _ _ _) = (uid < n)"
| "uid_issued n _ = True"

definition inv_server :: "app \<Rightarrow> bool" where
  "inv_server s \<longleftrightarrow> backend_wf (server s) \<and> (\<forall>t\<in>#tasks s. uid_issued (id_seed (server s)) t)"

text \<open>\<open>inv_user\<close>: the stored user is the snapshot of an account registered at the
  service.\<close>

definition inv_user :: "app \<Rightarrow> bool" where
  "inv_user s \<longleftrightarrow>
     (case user (root s) of None \<Rightarrow> True | Some u \<Rightarrow> u \<in> user_of ` set (accounts (server s)))"

text \<open>\<open>inv_ids\<close>: the ids \<open>ID.unique()\<close> issued to registrations still in flight
  are pairwise distinct, issued, and not yet taken by an account.\<close>

fun register_uid :: "task \<Rightarrow> nat option" where
  "register_uid (Register_create _ uid _ _ _) = Some uid"
| "register_uid _ = None"

definition pending_uids :: "task multiset \<Rightarrow> nat multiset" where
  "pending_uids M = image_mset (the \<circ> register_uid) (filter_mset (\<lambda>t. register_uid t \<noteq> None) M)"

definition inv_ids :: "app \<Rightarrow> bool" where
  "inv_ids s \<longleftrightarrow>
     (\<forall>i. count (pending_uids (tasks s)) i \<le> 1) \<and>
     (\<forall>i\<in>#pending_uids (tasks s). i < id_seed (server s) \<and> i \<notin> set (map acc_id (accounts (server s))))"

section \<open>Lemmas\<close>

lemma finish_frame [simp]:
  "checking_flag (root (login_finish k r s)) = checking_flag (root s)"
  "tasks (login_finish k r s) = tasks s"
  "checking_flag (root (register_finish k r s)) = checking_flag (root s)"
  "tasks (register_finish k r s) = tasks s"
  "checking_flag (root (logout_finish k r' s)) = checking_flag (root s)"
  "tasks (logout_finish k r' s) = tasks s"
  by (auto simp: login_finish_def register_finish_def logout_finish_def on_login_end_def
      on_register_end_def on_logout_end_def set_user_def split: prod.splits sum.splits)

lemma run_task_frame:
  "t \<noteq> Startup_get \<Longrightarrow> checking_flag (root (run_task t s)) = checking_flag (root s)"
  "Startup_get \<in># tasks (run_task t s) \<longleftrightarrow> Startup_get \<in># tasks s"
  by (cases t; simp add: Let_def split: prod.splits sum.splits)+

lemma mount_frame [simp]:
  "root (mount t s) = root s" "tasks (mount t s) = tasks s" "alerts (mount t s) = alerts s"
  by (cases t; simp)+

lemma inv_phase_step: "inv_phase s \<Longrightarrow> app_step s e = Some s' \<Longrightarrow> inv_phase s'"
proof (cases e)
  case (Complete t)
  assume inv: "inv_phase s" and st: "app_step s e = Some s'"
  show ?thesis
  proof (cases "checking_flag (root s)")
    case True
    with inv st Complete have "t = Startup_get" "s' = run_task Startup_get (s\<lparr>tasks := {#}\<rparr>)"
      by (auto simp: inv_phase_def split: if_splits)
    then show ?thesis by (simp add: inv_phase_def Let_def split: prod.splits)
  next
    case False
    with inv st Complete show ?thesis
      by (cases "t = Startup_get")
         (auto simp: inv_phase_def run_task_frame dest: in_diffD split: if_splits)
  qed
qed (auto simp: inv_phase_def shown_def press_sign_in_def press_create_account_def
      press_sign_out_def Let_def split: if_splits option.splits submit.splits prod.splits)

lemma finish_ids [simp]:
  "login_id (login_finish k r s) = login_id s" "register_id (login_finish k r s) = register_id s"
  "home_id (login_finish k r s) = home_id s" "mount_seq (login_finish k r s) = mount_seq s"
  "rform (login_finish k r s) = rform s" "home_loading (login_finish k r s) = home_loading s"
  "login_id (register_finish k r s) = login_id s" "register_id (register_finish k r s) = register_id s"
  "home_id (register_finish k r s) = home_id s" "mount_seq (register_finish k r s) = mount_seq s"
  "lform (register_finish k r s) = lform s" "home_loading (register_finish k r s) = home_loading s"
  "login_id (logout_finish k r' s) = login_id s" "register_id (logout_finish k r' s) = register_id s"
  "home_id (logout_finish k r' s) = home_id s" "mount_seq (logout_finish k r' s) = mount_seq s"
  "lform (logout_finish k r' s) = lform s" "rform (logout_finish k r' s) = rform s"
  by (simp_all add: login_finish_def register_finish_def logout_finish_def split: prod.splits)

lemma finish_loading [simp]:
  "lf_loading (lform (login_finish k r s)) = (k \<noteq> login_id s \<and> lf_loading (lform s))"
  "rf_loading (rform (register_finish k r s)) = (k \<noteq> register_id s \<and> rf_loading (rform s))"
  "home_loading (logout_finish k r' s) = (k \<noteq> home_id s \<and> home_loading s)"
  by (auto simp: login_finish_def register_finish_def logout_finish_def on_login_end_def
      on_register_end_def on_logout_end_def split: prod.splits sum.splits)

lemma run_task_ids [simp]:
  "login_id (run_task t s) = login_id s" "register_id (run_task t s) = register_id s"
  "home_id (run_task t s) = home_id s" "mount_seq (run_task t s) = mount_seq s"
  by (cases t; simp add: Let_def split: prod.splits sum.splits)+

lemma task_kind:
  "login_task i t \<Longrightarrow> task_owner t = i \<and> (\<forall>j. login_task j t \<longleftrightarrow> j = i) \<and>
     (\<forall>j. \<not> register_task j t \<and> \<not> logout_task j t)"
  "register_task i t \<Longrightarrow> task_owner t = i \<and> (\<forall>j. register_task j t \<longleftrightarrow> j = i) \<and>
     (\<forall>j. \<not> login_task j t \<and> \<not> logout_task j t)"
  "logout_task i t \<Longrightarrow> task_owner t = i \<and> (\<forall>j. logout_task j t \<longleftrightarrow> j = i) \<and>
     (\<forall>j. \<not> login_task j t \<and> \<not> register_task j t)"
  by (cases t; auto)+

lemma inv_loading_cont:
  assumes inv: "inv_loading s" and M: "tasks s = add_mset t M0"
    and k: "\<And>i. login_task i t' = login_task i t" "\<And>i. register_task i t' = register_task i t"
      "\<And>i. logout_task i t' = logout_task i t" and o: "task_owner t' = task_owner t"
  shows "inv_loading (s\<lparr>server := b, tasks := add_mset t' M0\<rparr>)"
proof -
  have "\<forall>x\<in>#add_mset t' M0. task_owner x < mount_seq s"
    using inv M o by (simp add: inv_loading_def)
  moreover have "inflight P i (s\<lparr>server := b, tasks := add_mset t' M0\<rparr>) = inflight P i s"
    if "P = login_task \<or> P = register_task \<or> P = logout_task" for P i
    using that M k by (auto simp: inflight_def)
  ultimately show ?thesis using inv by (simp add: inv_loading_def)
qed

lemma count_finish:
  assumes c: "size (filter_mset (P i) (add_mset t M0)) = (if fl then 1 else 0)"
    and k: "\<And>j. P j t \<longleftrightarrow> j = k"
  shows "size (filter_mset (P i) M0) = (if k \<noteq> i \<and> fl then 1 else 0)"
  using c k by (cases "k = i") (auto split: if_splits)

lemma inv_loading_finish:
  assumes inv: "inv_loading s" and M: "tasks s = add_mset t M0"
  shows "login_task k t \<Longrightarrow> inv_loading (login_finish k r (s\<lparr>tasks := M0, server := b\<rparr>))"
    and "register_task k t \<Longrightarrow> inv_loading (register_finish k r (s\<lparr>tasks := M0, server := b\<rparr>))"
    and "logout_task k t \<Longrightarrow> inv_loading (logout_finish k r' (s\<lparr>tasks := M0, server := b\<rparr>))"
proof -
  have own: "\<forall>x\<in>#M0. task_owner x < mount_seq s" using inv M by (simp add: inv_loading_def)
  note cnt = inv [unfolded inv_loading_def inflight_def, simplified M]
  show "login_task k t \<Longrightarrow> inv_loading (login_finish k r (s\<lparr>tasks := M0, server := b\<rparr>))"
    using own cnt task_kind(1) [of k t] count_finish [of login_task "login_id s" t M0]
    by (simp add: inv_loading_def inflight_def)
  show "register_task k t \<Longrightarrow> inv_loading (register_finish k r (s\<lparr>tasks := M0, server := b\<rparr>))"
    using own cnt task_kind(2) [of k t] count_finish [of register_task "register_id s" t M0]
    by (simp add: inv_loading_def inflight_def)
  show "logout_task k t \<Longrightarrow> inv_loading (logout_finish k r' (s\<lparr>tasks := M0, server := b\<rparr>))"
    using own cnt task_kind(3) [of k t] count_finish [of logout_task "home_id s" t M0]
    by (simp add: inv_loading_def inflight_def)
qed

lemma inv_loading_complete:
  assumes inv: "inv_loading s" and t: "t \<in># tasks s"
  shows "inv_loading (run_task t (s\<lparr>tasks := tasks s - {#t#}\<rparr>))"
proof -
  obtain M0 where M: "tasks s = add_mset t M0" using t by (metis multi_member_split)
  then have d: "s\<lparr>tasks := tasks s - {#t#}\<rparr> = s\<lparr>tasks := M0\<rparr>" by simp
  note cont = inv_loading_cont [OF inv M] and fin = inv_loading_finish [OF inv M]
  have "inv_loading (run_task t (s\<lparr>tasks := M0\<rparr>))"
  proof (cases t)
    case Startup_get
    then show ?thesis using inv M by (auto simp: inv_loading_def inflight_def Let_def split: prod.splits)
  qed (auto simp: Let_def intro: cont fin split: prod.splits sum.splits)
  then show ?thesis unfolding d .
qed

lemma fresh_inflight:
  assumes "\<forall>x\<in>#tasks s. task_owner x < n"
  shows "inflight login_task n s = 0" "inflight register_task n s = 0" "inflight logout_task n s = 0"
  using assms
  by (auto simp: inflight_def filter_mset_eq_mempty_iff
      dest: task_kind(1) [THEN conjunct1] task_kind(2) [THEN conjunct1] task_kind(3) [THEN conjunct1])

lemma inv_loading_mount:
  assumes inv: "inv_loading s" shows "inv_loading (mount t s)"
proof -
  have own: "\<forall>x\<in>#tasks s. task_owner x < mount_seq s" using inv by (simp add: inv_loading_def)
  note z = fresh_inflight [OF own]
  show ?thesis
    using inv z by (cases t) (simp_all add: inv_loading_def inflight_def login_form_init_def
      register_form_init_def less_SucI)
qed

lemma inv_loading_press_sign_in:
  "inv_loading s \<Longrightarrow> \<not> lf_loading (lform s) \<Longrightarrow> inv_loading (press_sign_in s)"
  unfolding press_sign_in_def on_login_begin_def by (simp add: inv_loading_def inflight_def)

lemma inv_loading_press_create_account:
  "inv_loading s \<Longrightarrow> \<not> rf_loading (rform s) \<Longrightarrow> inv_loading (press_create_account s)"
  unfolding press_create_account_def on_register_begin_def ID_unique_def
  by (simp add: inv_loading_def inflight_def)

lemma inv_loading_press_sign_out:
  "inv_loading s \<Longrightarrow> \<not> home_loading s \<Longrightarrow> inv_loading (press_sign_out s)"
  unfolding press_sign_out_def on_logout_begin_def by (simp add: inv_loading_def inflight_def)

lemma inv_loading_forms:
  "lf_loading f = lf_loading (lform s) \<Longrightarrow> inv_loading (s\<lparr>lform := f\<rparr>) = inv_loading s"
  "rf_loading g = rf_loading (rform s) \<Longrightarrow> inv_loading (s\<lparr>rform := g\<rparr>) = inv_loading s"
  by (simp_all add: inv_loading_def inflight_def)

lemma inv_loading_step:
  assumes inv: "inv_loading s" and st: "app_step s e = Some s'"
  shows "inv_loading s'"
proof (cases e)
  case (Complete t)
  with st have "t \<in># tasks s" "s' = run_task t (s\<lparr>tasks := tasks s - {#t#}\<rparr>)"
    by (simp_all split: if_splits)
  with inv show ?thesis by (simp add: inv_loading_complete)
next
  case Follow_redirect
  with st obtain t where "s' = mount t s" by (auto split: if_splits option.splits)
  with inv show ?thesis by (simp add: inv_loading_mount)
next
  case Press_sign_in
  with st inv show ?thesis by (auto simp: inv_loading_press_sign_in split: if_splits)
next
  case Press_create_account
  with st inv show ?thesis by (auto simp: inv_loading_press_create_account split: if_splits)
next
  case Press_sign_out
  with st inv show ?thesis by (auto simp: inv_loading_press_sign_out split: if_splits)
qed (use st inv in \<open>auto simp del: mount.simps simp: inv_loading_mount inv_loading_forms fill_test_credentials_def
      split: if_splits\<close>)

lemma init_invs: "inv_phase (app_init b)" "inv_loading (app_init b)"
  by (simp_all add: inv_phase_def inv_loading_def inflight_def app_init_def root_init_def
      login_form_init_def register_form_init_def)

lemma reachable_invs: "reachable b s \<Longrightarrow> inv_phase s \<and> inv_loading s"
  by (induction rule: reachable.induct) (auto simp: init_invs intro: inv_phase_step inv_loading_step)

lemma app_run_reachable: "reachable b s \<Longrightarrow> app_run s es = Some s' \<Longrightarrow> reachable b s'"
  by (induction es arbitrary: s) (auto intro: reachable.step split: option.splits)

text \<open>C10: while the startup check is pending, the app renders only the activity indicator,
  the resolver's call is the only one in flight, the route is \<open>/\<close>, no alert has been
  shown, and the only possible step is the completion of that call.\<close>

theorem checking_phase:
  assumes "reachable b s" and "checking_flag (root s)"
  shows "root_render (root s) = Activity_indicator \<and> tasks s = {#Startup_get#} \<and>
         route s = Index_screen \<and> alerts s = [] \<and>
         (\<forall>e s'. app_step s e = Some s' \<longrightarrow> e = Complete Startup_get)"
proof -
  from assms have p: "tasks s = {#Startup_get#}" "route s = Index_screen" "alerts s = []"
    using reachable_invs [OF assms(1)] by (simp_all add: inv_phase_def)
  have "app_step s e = Some s' \<Longrightarrow> e = Complete Startup_get" for e s'
    using assms(2) p by (cases e) (auto simp: shown_def split: if_splits)
  with assms(2) p show ?thesis by (simp add: root_render_def)
qed

lemma checking_phase_witness:
  "reachable empty_backend (app_init empty_backend) \<and> checking_flag (root (app_init empty_backend)) \<and>
   root_render (root (app_init empty_backend)) = Activity_indicator \<and>
   tasks (app_init empty_backend) = {#Startup_get#}"
proof -
  have h: "reachable empty_backend (app_init empty_backend)" "checking_flag (root (app_init empty_backend))"
    by (rule reachable.init) (simp add: app_init_def root_init_def)
  show ?thesis using h checking_phase [OF h] by blast
qed

text \<open>C11: the disabled buttons debounce exactly: in every reachable state each mounted
  screen instance has one call in flight while its \<open>loading\<close> flag is set and none
  otherwise, so no handler ever runs twice at once on one screen.\<close>

theorem one_call_per_screen:
  assumes "reachable b s"
  shows "inflight login_task (login_id s) s = (if lf_loading (lform s) then 1 else 0) \<and>
         inflight register_task (register_id s) s = (if rf_loading (rform s) then 1 else 0) \<and>
         inflight logout_task (home_id s) s = (if home_loading s then 1 else 0)"
  using reachable_invs [OF assms] by (simp add: inv_loading_def)

lemmas app_eval_simps = app_init_def shown_def current_view_def root_init_def render_defs
  login_form_init_def register_form_init_def account_get_def srv_get_def startup_resume_def
  set_user_def fill_test_credentials_def press_sign_in_def press_create_account_def
  press_sign_out_def on_login_begin_def on_register_begin_def on_logout_begin_def js_trim_def
  js_whitespace_def account_create_email_password_session_def account_create_def
  srv_create_session_def srv_create_def check_params_def email_valid_def
  min_password_length_def find_email_def find_id_def login_finish_def register_finish_def
  logout_finish_def on_login_end_def on_register_end_def on_logout_end_def logout_def
  account_delete_session_def srv_delete_session_def remote_call_def ID_unique_def
  failure_alert_def js_nullish_def inflight_def test_backend_def test_account_def
  empty_backend_def user_of_def

lemma one_call_per_screen_witness:
  "case app_run (app_init test_backend)
          [Complete Startup_get, Link_sign_in, Use_test_credentials, Press_sign_in] of
     None \<Rightarrow> False
   | Some s \<Rightarrow> reachable test_backend s \<and> lf_loading (lform s) \<and>
       inflight login_task (login_id s) s = 1"
proof -
  define s where "s = app_init test_backend\<lparr>root := root_init\<lparr>checking_flag := False\<rparr>,
    route := Login_screen, lform := \<lparr>lf_email = ''jimmuell@aol.com'', lf_password = ''12345678'',
    lf_loading = True\<rparr>, login_id := 1, mount_seq := 2,
    tasks := {#Login_session 1 ''jimmuell@aol.com'' ''12345678''#}\<rparr>"
  have run: "app_run (app_init test_backend)
          [Complete Startup_get, Link_sign_in, Use_test_credentials, Press_sign_in] = Some s"
    by (simp add: s_def app_eval_simps)
  have r: "reachable test_backend s" by (rule app_run_reachable [OF reachable.init run])
  have "lf_loading (lform s)" by (simp add: s_def)
  with one_call_per_screen [OF r] r run show ?thesis by simp
qed

text \<open>C12: a sign-out whose response is lost leaves the app showing the user as signed in
  while the service has already deleted the session: the handler only alerts, and the spec's
  "after logout, Auth State is null regardless of its prior value" does not hold.\<close>

theorem logout_lost_response:
  assumes "shown s Home_screen" and "\<not> home_loading s"
    and "links (server s) = Lost_response # ls" and "session (server s) \<noteq> None"
  shows "\<exists>s'. app_run s [Press_sign_out, Complete (Logout_delete (home_id s))] = Some s' \<and>
           user (root s) \<noteq> None \<and> user (root s') = user (root s) \<and> route s' = Home_screen \<and>
           session (server s') = None \<and>
           alerts s' = alerts s @ [Alert ''Logout failed'' ''Network request failed'']"
  using assms
  by (auto simp: shown_def current_view_def render_defs press_sign_out_def logout_def
      account_delete_session_def remote_call_def srv_delete_session_def logout_finish_def
      on_logout_end_def failure_alert_def js_nullish_def split: option.splits)

lemma logout_lost_response_witness:
  "\<exists>s. app_run (app_init (test_backend\<lparr>session := Some 0, links := [Delivered, Lost_response]\<rparr>))
         [Complete Startup_get, Follow_redirect] = Some s \<and>
       shown s Home_screen \<and> \<not> home_loading s \<and> links (server s) = Lost_response # [] \<and>
       session (server s) \<noteq> None \<and>
       (\<exists>s'. app_run s [Press_sign_out, Complete (Logout_delete (home_id s))] = Some s' \<and>
           user (root s) \<noteq> None \<and> user (root s') = user (root s) \<and> route s' = Home_screen \<and>
           session (server s') = None \<and>
           alerts s' = alerts s @ [Alert ''Logout failed'' ''Network request failed''])"
proof -
  obtain s where run: "app_run (app_init (test_backend\<lparr>session := Some 0,
      links := [Delivered, Lost_response]\<rparr>)) [Complete Startup_get, Follow_redirect] = Some s"
    by (simp add: app_eval_simps)
  have h: "shown s Home_screen" "\<not> home_loading s" "links (server s) = Lost_response # []"
    "session (server s) \<noteq> None"
    using run by (simp add: app_eval_simps, hypsubst, simp add: app_eval_simps)+
  show ?thesis using run h logout_lost_response [OF h] by blast
qed

text \<open>C13: while the service holds a session the app does not know about, completing a
  login call never signs the user in: the user and the session stay as they were and the
  handler alerts "Login failed".  Such a state is reachable after one lost response (here of
  the startup check), and then the login screen is locked out for the process lifetime.\<close>

theorem login_locked_out:
  assumes "app_step s (Complete (Login_session k e p)) = Some s'" and "session (server s) \<noteq> None"
  shows "user (root s') = user (root s) \<and> session (server s') = session (server s) \<and>
         tasks s' = tasks s - {#Login_session k e p#} \<and>
         (\<exists>m. alerts s' = alerts s @ [Alert ''Login failed'' m])"
proof -
  obtain err where c: "account_create_email_password_session e p (server s) =
      (Inl err, (server s)\<lparr>links := drop 1 (links (server s))\<rparr>)"
    using create_session_while_active [OF assms(2)] by blast
  from assms(1) have "s' = run_task (Login_session k e p) (s\<lparr>tasks := tasks s - {#Login_session k e p#}\<rparr>)"
    by (simp split: if_splits)
  with c show ?thesis
    by (simp add: login_finish_def on_login_end_def failure_alert_def)
qed

lemma login_locked_out_witness:
  "\<exists>s s'. app_run (app_init (test_backend\<lparr>session := Some 0, links := [Lost_response]\<rparr>))
           [Complete Startup_get, Link_sign_in, Use_test_credentials, Press_sign_in] = Some s \<and>
     user (root s) = None \<and> session (server s) \<noteq> None \<and>
     app_step s (Complete (Login_session 1 ''jimmuell@aol.com'' ''12345678'')) = Some s' \<and>
     user (root s') = None \<and> session (server s') = session (server s) \<and>
     tasks s' = tasks s - {#Login_session 1 ''jimmuell@aol.com'' ''12345678''#} \<and>
     (\<exists>m. alerts s' = alerts s @ [Alert ''Login failed'' m])"
proof -
  obtain s where run: "app_run (app_init (test_backend\<lparr>session := Some 0, links := [Lost_response]\<rparr>))
           [Complete Startup_get, Link_sign_in, Use_test_credentials, Press_sign_in] = Some s"
    by (simp add: app_eval_simps)
  have u: "user (root s) = None" and h2: "session (server s) \<noteq> None"
    and t: "Login_session 1 ''jimmuell@aol.com'' ''12345678'' \<in># tasks s"
    using run by (simp add: app_eval_simps, hypsubst, simp add: app_eval_simps)+
  obtain s' where h1: "app_step s (Complete (Login_session 1 ''jimmuell@aol.com'' ''12345678'')) = Some s'"
    using t by simp
  show ?thesis using run u h1 h2 login_locked_out [OF h1 h2] by auto
qed

text \<open>C14: pressing "Sign in" with an empty email or password field only shows the
  "Missing info" alert: no call is started and the service is not contacted.\<close>

theorem sign_in_missing_info:
  assumes "shown s Login_screen" and "\<not> lf_loading (lform s)"
    and "lf_email (lform s) = [] \<or> lf_password (lform s) = []"
  shows "app_step s Press_sign_in =
           Some (s\<lparr>alerts := alerts s @ [Alert ''Missing info'' ''Please enter email and password.'']\<rparr>)"
  using assms by (auto simp: press_sign_in_def on_login_begin_def)

lemma sign_in_missing_info_witness:
  "\<exists>s. app_run (app_init empty_backend) [Complete Startup_get, Link_sign_in] = Some s \<and>
     app_step s Press_sign_in =
       Some (s\<lparr>alerts := alerts s @ [Alert ''Missing info'' ''Please enter email and password.'']\<rparr>)"
proof -
  obtain s where run: "app_run (app_init empty_backend) [Complete Startup_get, Link_sign_in] = Some s"
    by (simp add: app_eval_simps)
  have h: "shown s Login_screen" "\<not> lf_loading (lform s)"
    "lf_email (lform s) = [] \<or> lf_password (lform s) = []"
    using run by (simp add: app_eval_simps, hypsubst, simp add: app_eval_simps)+
  show ?thesis using run sign_in_missing_info [OF h] by blast
qed

text \<open>C15: the app's task decomposition of a login refines \<open>auth.login\<close>: completing the
  login's calls one after the other, with no other flow in between, leaves the service as
  \<open>login\<close> does and stores its user, or keeps the old one when it throws.\<close>

theorem login_tasks_refine_login:
  assumes "Login_session k e p \<in># tasks s"
  shows "\<exists>s'. app_run s (Complete (Login_session k e p) #
             (case fst (account_create_email_password_session e p (server s)) of
                Inr _ \<Rightarrow> [Complete (Login_get k)] | Inl _ \<Rightarrow> [])) = Some s' \<and>
           server s' = snd (login e p (server s)) \<and>
           user (root s') = (case fst (login e p (server s)) of Inr me \<Rightarrow> Some me | Inl _ \<Rightarrow> user (root s)) \<and>
           tasks s' = tasks s - {#Login_session k e p#}"
proof -
  obtain r1 b1 where c: "account_create_email_password_session e p (server s) = (r1, b1)"
    by (cases "account_create_email_password_session e p (server s)")
  show ?thesis
  proof (cases r1)
    case (Inl err)
    with c assms show ?thesis
      by (simp add: login_def login_finish_def on_login_end_def)
  next
    case (Inr x)
    obtain r2 b2 where g: "account_get b1 = (r2, b2)" by (cases "account_get b1")
    have l: "login e p (server s) = (r2, b2)" using c g Inr by (simp add: login_def)
    have m: "tasks s - {#Login_session k e p#} + {#Login_get k#} - {#Login_get k#} =
             tasks s - {#Login_session k e p#}" by simp
    from c g Inr assms l show ?thesis
      by (simp add: login_finish_def on_login_end_def set_user_def split: sum.splits)
  qed
qed

lemma login_tasks_refine_login_witness:
  "\<exists>s'. app_run (app_init test_backend\<lparr>tasks := {#Login_session 0 ''jimmuell@aol.com'' ''12345678''#}\<rparr>)
          [Complete (Login_session 0 ''jimmuell@aol.com'' ''12345678''), Complete (Login_get 0)] = Some s' \<and>
        server s' = snd (login ''jimmuell@aol.com'' ''12345678'' test_backend) \<and>
        user (root s') = Some (user_of test_account)"
proof -
  let ?s = "app_init test_backend\<lparr>tasks := {#Login_session 0 ''jimmuell@aol.com'' ''12345678''#}\<rparr>"
  have h: "Login_session 0 ''jimmuell@aol.com'' ''12345678'' \<in># tasks ?s" by simp
  have c: "fst (account_create_email_password_session ''jimmuell@aol.com'' ''12345678'' test_backend) = Inr 0"
    and l: "fst (login ''jimmuell@aol.com'' ''12345678'' test_backend) = Inr (user_of test_account)"
    by (simp_all add: app_eval_simps login_def)
  have sv: "server ?s = test_backend" by (simp add: app_init_def)
  show ?thesis using login_tasks_refine_login [OF h] unfolding sv c sum.case l by blast
qed

lemma finish_server [simp]:
  "server (login_finish k r s) = server s" "server (register_finish k r s) = server s"
  "server (logout_finish k r' s) = server s"
  by (simp_all add: login_finish_def register_finish_def logout_finish_def split: prod.splits)

lemma logout_wf: "backend_wf b \<Longrightarrow> backend_wf (snd (logout b))"
  and logout_id_seed: "id_seed (snd (logout b)) = id_seed b"
  by (simp_all add: logout_def account_delete_session_wf)

lemma inv_server_complete:
  assumes inv: "inv_server s" and t: "t \<in># tasks s"
  shows "inv_server (run_task t (s\<lparr>tasks := tasks s - {#t#}\<rparr>))"
proof -
  obtain M0 where M: "tasks s = add_mset t M0" using t by (metis multi_member_split)
  then have d: "s\<lparr>tasks := tasks s - {#t#}\<rparr> = s\<lparr>tasks := M0\<rparr>" by simp
  have wf: "backend_wf (server s)" and u: "\<forall>x\<in>#M0. uid_issued (id_seed (server s)) x"
    and ut: "uid_issued (id_seed (server s)) t"
    using inv M by (simp_all add: inv_server_def)
  have "inv_server (run_task t (s\<lparr>tasks := M0\<rparr>))"
  proof (cases t)
    case (Register_create k uid e p n)
    with ut have "uid < id_seed (server s)" by simp
    then have "backend_wf (snd (account_create uid e p n (server s)))"
      by (rule account_create_wf [OF wf])
    with Register_create u show ?thesis
      by (auto simp: inv_server_def Let_def case_prod_beta split: sum.splits)
  qed (use wf u in \<open>auto simp: inv_server_def Let_def case_prod_beta inv_intros logout_wf
        logout_id_seed split: sum.splits\<close>)
  then show ?thesis unfolding d .
qed

lemma mount_server [simp]: "server (mount t s) = server s"
  by (cases t) simp_all

lemma inv_server_press:
  assumes inv: "inv_server s"
  shows "inv_server (press_sign_in s)" and "inv_server (press_sign_out s)"
    and "inv_server (press_create_account s)"
proof -
  show "inv_server (press_sign_in s)" "inv_server (press_sign_out s)"
    using inv by (auto simp: inv_server_def press_sign_in_def press_sign_out_def
        split: submit.splits prod.splits)
  have wf: "backend_wf (server s)" and u: "\<forall>x\<in>#tasks s. uid_issued (id_seed (server s)) x"
    using inv by (simp_all add: inv_server_def)
  have "backend_wf (snd (ID_unique (server s)))"
    using ID_unique_wf(1) [OF wf] by (cases "ID_unique (server s)") auto
  moreover have "\<forall>x\<in>#tasks s. uid_issued (Suc (id_seed (server s))) x"
    using u by (auto elim!: uid_issued.elims(2) intro: less_SucI)
  ultimately show "inv_server (press_create_account s)"
    using wf u by (auto simp: inv_server_def press_create_account_def ID_unique_def split: submit.splits)
qed

lemma inv_server_step: "inv_server s \<Longrightarrow> app_step s e = Some s' \<Longrightarrow> inv_server s'"
  by (cases e)
     (auto simp del: mount.simps simp: inv_server_complete inv_server_press
       split: if_splits option.splits,
      auto simp: inv_server_def)

lemma reachable_inv_server: "reachable b s \<Longrightarrow> backend_wf b \<Longrightarrow> inv_server s"
proof (induction rule: reachable.induct)
  case init
  then show ?case by (simp add: inv_server_def app_init_def)
next
  case (step s e s')
  then show ?case by (blast intro: inv_server_step)
qed

text \<open>C18: the app's task decomposition of a registration refines \<open>auth.register\<close>:
  after "Create account" is pressed on a valid form, completing only this flow's calls, in
  order and at most three of them, leaves the service as \<open>register\<close> does (with the
  id \<open>ID.unique()\<close> issued at the press), stores its user or keeps the old one when it
  throws, and leaves no call of the flow in flight.\<close>

theorem register_tasks_refine_register:
  assumes sh: "shown s Register_screen" and nl: "\<not> rf_loading (rform s)"
    and sub: "on_register_begin (rform s) = Submitted (f, e, p, n)"
  shows "\<exists>es s'. length es \<le> 3 \<and> app_run s (Press_create_account # es) = Some s' \<and>
           server s' = snd (register e p n (server s)) \<and>
           user (root s') = (case fst (register e p n (server s)) of Inr me \<Rightarrow> Some me | Inl _ \<Rightarrow> user (root s)) \<and>
           tasks s' = tasks s"
proof -
  let ?k = "register_id s" and ?uid = "id_seed (server s)"
  let ?b1 = "server s\<lparr>id_seed := Suc ?uid\<rparr>"
  let ?s1 = "s\<lparr>rform := f, server := ?b1, tasks := tasks s + {#Register_create ?k ?uid e p n#}\<rparr>"
  have p1: "app_step s Press_create_account = Some ?s1"
    using sh nl sub by (simp add: press_create_account_def ID_unique_def)
  have reg: "register e p n (server s) =
      await_then (account_create ?uid e p n)
        (\<lambda>_. await_then (account_create_email_password_session e p) (\<lambda>_. account_get)) ?b1"
    by (simp add: register_def ID_unique_def)
  obtain r1 b2 where c1: "account_create ?uid e p n ?b1 = (r1, b2)" by fastforce
  show ?thesis
  proof (cases r1)
    case (Inl err)
    then show ?thesis using p1 c1 reg
      by (intro exI [of _ "[Complete (Register_create ?k ?uid e p n)]"])
         (simp add: register_finish_def on_register_end_def)
  next
    case (Inr x)
    obtain r2 b3 where c2: "account_create_email_password_session e p b2 = (r2, b3)" by fastforce
    show ?thesis
    proof (cases r2)
      case (Inl err)
      then show ?thesis using p1 c1 c2 reg \<open>r1 = Inr x\<close>
        by (intro exI [of _ "[Complete (Register_create ?k ?uid e p n), Complete (Register_session ?k e p)]"])
           (simp add: register_finish_def on_register_end_def)
    next
      case (Inr y)
      obtain r3 b4 where c3: "account_get b3 = (r3, b4)" by fastforce
      show ?thesis using p1 c1 c2 c3 reg \<open>r1 = Inr x\<close> \<open>r2 = Inr y\<close>
        by (intro exI [of _ "[Complete (Register_create ?k ?uid e p n), Complete (Register_session ?k e p),
                              Complete (Register_get ?k)]"])
           (simp add: register_finish_def on_register_end_def set_user_def split: sum.splits)
    qed
  qed
qed

lemma register_tasks_refine_register_witness:
  "\<exists>s. app_run (app_init empty_backend)
         [Complete Startup_get, Link_create_account, Type_register_name ''Jim'',
          Type_register_email ''jim@example.com'', Type_register_password ''12345678''] = Some s \<and>
       shown s Register_screen \<and> \<not> rf_loading (rform s) \<and>
       on_register_begin (rform s) =
         Submitted ((rform s)\<lparr>rf_loading := True\<rparr>, ''jim@example.com'', ''12345678'', ''Jim'') \<and>
       (\<exists>es s'. length es \<le> 3 \<and> app_run s (Press_create_account # es) = Some s' \<and>
           server s' = snd (register ''jim@example.com'' ''12345678'' ''Jim'' (server s)) \<and>
           user (root s') = (case fst (register ''jim@example.com'' ''12345678'' ''Jim'' (server s)) of
                               Inr me \<Rightarrow> Some me | Inl _ \<Rightarrow> user (root s)) \<and>
           tasks s' = tasks s)"
proof -
  obtain s where run: "app_run (app_init empty_backend)
         [Complete Startup_get, Link_create_account, Type_register_name ''Jim'',
          Type_register_email ''jim@example.com'', Type_register_password ''12345678''] = Some s"
    by (simp add: app_eval_simps)
  have h: "shown s Register_screen" "\<not> rf_loading (rform s)"
    "on_register_begin (rform s) =
       Submitted ((rform s)\<lparr>rf_loading := True\<rparr>, ''jim@example.com'', ''12345678'', ''Jim'')"
    using run by (simp add: app_eval_simps, hypsubst, simp add: app_eval_simps)+
  show ?thesis using run h register_tasks_refine_register [OF h] by blast
qed

text \<open>C19: on a healthy network with a session at the service, pressing "Sign out" on Home
  and completing the call clears the user and the session, and the gate then takes the app
  to the Welcome screen, with no alert (spec, section 8, fourth property, when the call
  succeeds).\<close>

theorem sign_out_healthy:
  assumes "shown s Home_screen" and "\<not> home_loading s"
    and "links (server s) = []" and "session (server s) \<noteq> None"
  shows "\<exists>s'. app_run s [Press_sign_out, Complete (Logout_delete (home_id s)), Follow_redirect] = Some s' \<and>
           user (root s') = None \<and> session (server s') = None \<and> route s' = Index_screen \<and>
           current_view s' = Welcome_view \<and> alerts s' = alerts s"
  using assms
  by (auto simp: shown_def current_view_def render_defs press_sign_out_def logout_def
      account_delete_session_def remote_call_def srv_delete_session_def logout_finish_def
      on_logout_end_def set_user_def split: option.splits)

lemma sign_out_healthy_witness:
  "\<exists>s. app_run (app_init (test_backend\<lparr>session := Some 0\<rparr>)) [Complete Startup_get, Follow_redirect] = Some s \<and>
       shown s Home_screen \<and> \<not> home_loading s \<and> links (server s) = [] \<and> session (server s) \<noteq> None \<and>
       (\<exists>s'. app_run s [Press_sign_out, Complete (Logout_delete (home_id s)), Follow_redirect] = Some s' \<and>
           user (root s') = None \<and> session (server s') = None \<and> route s' = Index_screen \<and>
           current_view s' = Welcome_view \<and> alerts s' = alerts s)"
proof -
  obtain s where run: "app_run (app_init (test_backend\<lparr>session := Some 0\<rparr>))
      [Complete Startup_get, Follow_redirect] = Some s"
    by (simp add: app_eval_simps)
  have h: "shown s Home_screen" "\<not> home_loading s" "links (server s) = []" "session (server s) \<noteq> None"
    using run by (simp add: app_eval_simps, hypsubst, simp add: app_eval_simps)+
  show ?thesis using run h sign_out_healthy [OF h] by blast
qed

section \<open>The stored user, the alerts and the fields\<close>

lemma finish_user [simp]:
  "user (root (login_finish k r s)) = (case r of Inr me \<Rightarrow> Some me | Inl _ \<Rightarrow> user (root s))"
  "user (root (register_finish k r s)) = (case r of Inr me \<Rightarrow> Some me | Inl _ \<Rightarrow> user (root s))"
  "user (root (logout_finish k r' s)) = (case r' of Inr _ \<Rightarrow> None | Inl _ \<Rightarrow> user (root s))"
  by (simp_all add: login_finish_def register_finish_def logout_finish_def on_login_end_def
      on_register_end_def on_logout_end_def set_user_def split: prod.splits sum.split)

lemma inv_user_frame:
  assumes "inv_user s" and "set (accounts (server s)) \<subseteq> set (accounts (server s'))"
    and "user (root s') \<in> {user (root s), None} \<union> Some ` user_of ` set (accounts (server s'))"
  shows "inv_user s'"
  using assms by (auto simp: inv_user_def split: option.splits)

lemma inv_user_complete:
  assumes inv: "inv_user s"
  shows "inv_user (run_task t s)"
proof (rule inv_user_frame [OF inv])
  show "set (accounts (server s)) \<subseteq> set (accounts (server (run_task t s)))"
    by (cases t) (simp_all add: Let_def case_prod_beta sdk_accounts_mono logout_def split: sum.split)
  show "user (root (run_task t s)) \<in>
          {user (root s), None} \<union> Some ` user_of ` set (accounts (server (run_task t s)))"
    by (cases t) (auto simp: Let_def case_prod_beta startup_resume_user
        dest: account_get_user split: sum.split)
qed

lemma inv_user_step:
  assumes inv: "inv_user s" and st: "app_step s e = Some s'"
  shows "inv_user s'"
proof (cases e)
  case (Complete t)
  with st have "s' = run_task t (s\<lparr>tasks := tasks s - {#t#}\<rparr>)" by (simp split: if_splits)
  moreover have "inv_user (s\<lparr>tasks := tasks s - {#t#}\<rparr>)"
    using inv by (simp add: inv_user_def split: option.splits)
  ultimately show ?thesis by (simp add: inv_user_complete)
qed (use st inv in \<open>auto simp del: mount.simps simp: inv_user_def press_sign_in_def
      press_create_account_def press_sign_out_def ID_unique_def
      split: if_splits option.splits submit.splits prod.splits\<close>)

lemma reachable_inv_user: "reachable b s \<Longrightarrow> inv_user s"
proof (induction rule: reachable.induct)
  case init
  then show ?case by (simp add: inv_user_def app_init_def root_init_def)
next
  case (step s e s')
  then show ?case by (blast intro: inv_user_step)
qed

text \<open>C25: in every reachable state a stored user is the snapshot of an account registered
  at the service (the client holds a read-only copy of a service-owned User, spec section 3),
  so Home greets that account's name and shows that account's email.\<close>

theorem home_shows_registered_account:
  assumes "reachable b s" and "user (root s) = Some u"
  shows "\<exists>a. a \<in> set (accounts (server s)) \<and> u = user_of a \<and>
           render_screen (user (root s)) (lform s) (rform s) (home_loading s) Home_screen =
             Home_view (home_greeting (user_of a)) (acc_email a) (home_loading s)"
proof -
  from reachable_inv_user [OF assms(1)] assms(2)
  obtain a where "a \<in> set (accounts (server s))" "u = user_of a" by (auto simp: inv_user_def)
  with assms(2) show ?thesis by (auto simp: home_render_def user_of_def)
qed

lemma home_shows_registered_account_witness:
  "\<exists>s. app_run (app_init (test_backend\<lparr>session := Some 0\<rparr>)) [Complete Startup_get, Follow_redirect] = Some s \<and>
     reachable (test_backend\<lparr>session := Some 0\<rparr>) s \<and> user (root s) = Some (user_of test_account) \<and>
     (\<exists>a. a \<in> set (accounts (server s)) \<and> user_of test_account = user_of a \<and>
        render_screen (user (root s)) (lform s) (rform s) (home_loading s) Home_screen =
          Home_view (home_greeting (user_of a)) (acc_email a) (home_loading s))"
proof -
  obtain s where run: "app_run (app_init (test_backend\<lparr>session := Some 0\<rparr>))
      [Complete Startup_get, Follow_redirect] = Some s"
    by (simp add: app_eval_simps)
  have r: "reachable (test_backend\<lparr>session := Some 0\<rparr>) s" by (rule app_run_reachable [OF reachable.init run])
  have u: "user (root s) = Some (user_of test_account)"
    using run by (simp add: app_eval_simps, hypsubst, simp add: app_eval_simps)
  show ?thesis using run r u home_shows_registered_account [OF r u] by blast
qed

lemma pending_uids_empty [simp]: "pending_uids {#} = {#}"
  by (simp add: pending_uids_def)

lemma inv_ids_cong:
  "inv_ids s \<Longrightarrow> pending_uids (tasks s') = pending_uids (tasks s) \<Longrightarrow> server s' = server s \<Longrightarrow>
     inv_ids s'"
  by (simp add: inv_ids_def)

lemma pending_uids_add [simp]:
  "pending_uids (add_mset t M) =
     (case register_uid t of None \<Rightarrow> pending_uids M | Some u \<Rightarrow> add_mset u (pending_uids M))"
  by (cases "register_uid t") (simp_all add: pending_uids_def)

lemma run_task_pending [simp]: "pending_uids (tasks (run_task t s)) = pending_uids (tasks s)"
  by (cases t) (simp_all add: Let_def case_prod_beta split: sum.split)

lemma run_task_id_seed [simp]: "id_seed (server (run_task t s)) = id_seed (server s)"
  by (cases t) (simp_all add: Let_def case_prod_beta logout_def split: sum.split)

lemma run_task_acc_ids:
  "set (map acc_id (accounts (server (run_task t s)))) \<subseteq>
     set_option (register_uid t) \<union> set (map acc_id (accounts (server s)))"
proof (cases t)
  case (Register_create k uid e p n)
  then show ?thesis
    using account_create_ids [of uid e p n "server s"]
    by (auto simp: Let_def case_prod_beta split: sum.split)
qed (simp_all add: Let_def case_prod_beta logout_def split: sum.split)

lemma inv_ids_complete:
  assumes inv: "inv_ids s" and t: "t \<in># tasks s"
  shows "inv_ids (run_task t (s\<lparr>tasks := tasks s - {#t#}\<rparr>))"
proof -
  obtain M0 where M: "tasks s = add_mset t M0" using t by (metis multi_member_split)
  then have d: "s\<lparr>tasks := tasks s - {#t#}\<rparr> = s\<lparr>tasks := M0\<rparr>" by simp
  let ?s' = "run_task t (s\<lparr>tasks := M0\<rparr>)"
  have sub: "pending_uids M0 \<subseteq># pending_uids (tasks s)"
    using M by (simp split: option.split)
  have cnt: "\<forall>i. count (pending_uids M0) i \<le> 1"
    using inv sub by (meson inv_ids_def mset_subset_eq_count order_trans)
  have old: "i < id_seed (server s) \<and> i \<notin> set (map acc_id (accounts (server s)))"
    if "i \<in># pending_uids M0" for i
    using inv sub that by (auto simp: inv_ids_def dest: mset_subset_eqD)
  have new: "i \<notin> set_option (register_uid t)" if "i \<in># pending_uids M0" for i
  proof
    assume "i \<in> set_option (register_uid t)"
    then have "pending_uids (tasks s) = add_mset i (pending_uids M0)" using M by auto
    then have "2 \<le> count (pending_uids (tasks s)) i" using that by simp
    with inv show False by (auto simp: inv_ids_def dest: spec [of _ i])
  qed
  have "inv_ids ?s'"
    using cnt old new run_task_acc_ids [of t "s\<lparr>tasks := M0\<rparr>"] by (fastforce simp: inv_ids_def)
  then show ?thesis unfolding d .
qed

lemma inv_ids_press_create_account:
  assumes inv: "inv_ids s" and wf: "backend_wf (server s)"
  shows "inv_ids (press_create_account s)"
proof (cases "on_register_begin (rform s)")
  case (Submitted x)
  then obtain f e p n where x: "x = (f, e, p, n)" by (cases x) auto
  have lt: "\<forall>i\<in>#pending_uids (tasks s). i < id_seed (server s)" using inv by (simp add: inv_ids_def)
  then have fresh: "count (pending_uids (tasks s)) (id_seed (server s)) = 0" by (auto simp: count_eq_zero_iff)
  have "id_seed (server s) \<notin> set (map acc_id (accounts (server s)))"
    using wf by (auto simp: backend_wf_def)
  with inv fresh lt show ?thesis using Submitted x
    by (auto simp: inv_ids_def press_create_account_def ID_unique_def less_SucI)
qed (use inv in \<open>simp add: inv_ids_def press_create_account_def\<close>)

lemma inv_ids_step:
  assumes inv: "inv_ids s" and wf: "backend_wf (server s)" and st: "app_step s e = Some s'"
  shows "inv_ids s'"
proof (cases e)
  case (Complete t)
  with st inv show ?thesis by (auto simp: inv_ids_complete split: if_splits)
next
  case Press_create_account
  with st inv wf show ?thesis by (auto simp: inv_ids_press_create_account split: if_splits)
qed (rule inv_ids_cong [OF inv]; use st in \<open>auto simp del: mount.simps simp: press_sign_in_def
      press_sign_out_def split: if_splits option.splits submit.splits prod.splits\<close>)+

lemma reachable_inv_ids: "reachable b s \<Longrightarrow> backend_wf b \<Longrightarrow> inv_ids s"
proof (induction rule: reachable.induct)
  case init
  then show ?case by (simp add: inv_ids_def app_init_def)
next
  case (step s e s')
  then have "backend_wf (server s)" using reachable_inv_server by (simp add: inv_server_def)
  with step show ?case by (blast intro: inv_ids_step)
qed

lemma size_count_le_1: "\<forall>i. count M i \<le> 1 \<Longrightarrow> size M = card (set_mset M)"
proof (induction M)
  case (add x M)
  have c: "count (add_mset x M) i \<le> 1" for i using add.prems by blast
  from c [of x] have "x \<notin># M" by (simp add: count_eq_zero_iff [symmetric])
  moreover have "count M i \<le> 1" for i using c [of i] by (simp split: if_splits)
  ultimately show ?case using add.IH by simp
qed simp

text \<open>C26: \<open>ID.unique()\<close> is never wasted twice: in every reachable state from a
  well-formed service, the accounts plus the registrations still in flight number at most
  the ids issued so far, so each issued id is used by at most one account or one
  registration.\<close>

theorem accounts_bounded:
  assumes "reachable b s" and "backend_wf b"
  shows "length (accounts (server s)) + size (pending_uids (tasks s)) \<le> id_seed (server s)"
proof -
  let ?A = "set (map acc_id (accounts (server s)))" and ?P = "set_mset (pending_uids (tasks s))"
  have wf: "backend_wf (server s)" using reachable_inv_server [OF assms] by (simp add: inv_server_def)
  have ids: "inv_ids s" by (rule reachable_inv_ids [OF assms])
  have "length (accounts (server s)) = card ?A"
    using wf distinct_card [of "map acc_id (accounts (server s))"] by (simp add: backend_wf_def)
  moreover have "size (pending_uids (tasks s)) = card ?P"
    using ids by (simp add: inv_ids_def size_count_le_1)
  moreover have "card ?A + card ?P = card (?A \<union> ?P)"
    using ids by (intro card_Un_disjoint [symmetric]) (auto simp: inv_ids_def)
  moreover have "card (?A \<union> ?P) \<le> card {..<id_seed (server s)}"
    using wf ids by (intro card_mono) (auto simp: backend_wf_def inv_ids_def)
  ultimately show ?thesis by simp
qed

lemma accounts_bounded_witness:
  "\<exists>s. app_run (app_init empty_backend)
         [Complete Startup_get, Link_create_account, Type_register_name ''Jim'',
          Type_register_email ''jim@example.com'', Type_register_password ''12345678'',
          Press_create_account] = Some s \<and>
       reachable empty_backend s \<and> backend_wf empty_backend \<and> size (pending_uids (tasks s)) = 1 \<and>
       length (accounts (server s)) + size (pending_uids (tasks s)) \<le> id_seed (server s)"
proof -
  obtain s where run: "app_run (app_init empty_backend)
         [Complete Startup_get, Link_create_account, Type_register_name ''Jim'',
          Type_register_email ''jim@example.com'', Type_register_password ''12345678'',
          Press_create_account] = Some s"
    by (simp add: app_eval_simps)
  have r: "reachable empty_backend s" by (rule app_run_reachable [OF reachable.init run])
  have wf: "backend_wf empty_backend" by (simp add: backend_wf_def empty_backend_def)
  have p: "size (pending_uids (tasks s)) = 1"
    using run by (simp add: app_eval_simps, hypsubst, simp add: app_eval_simps)
  show ?thesis using run r wf p accounts_bounded [OF r wf] by blast
qed

text \<open>C31: every registration in flight carries an id no account has, so completing it can
  be refused as an existing user only because of its email, never because of its id.\<close>

theorem register_id_fresh:
  assumes "reachable b s" and "backend_wf b" and "Register_create k uid e p n \<in># tasks s"
  shows "find_id uid (accounts (server s)) = None"
proof -
  have "uid \<in># pending_uids (tasks s)"
    using assms(3) by (auto simp: pending_uids_def image_iff intro!: bexI [of _ "Register_create k uid e p n"])
  with reachable_inv_ids [OF assms(1,2)] show ?thesis by (auto simp: inv_ids_def find_id_None)
qed

lemma register_id_fresh_witness:
  "\<exists>s. app_run (app_init test_backend)
         [Complete Startup_get, Link_create_account, Type_register_name ''Jim'',
          Type_register_email ''jim@example.com'', Type_register_password ''12345678'',
          Press_create_account] = Some s \<and>
       reachable test_backend s \<and> backend_wf test_backend \<and>
       Register_create 1 1 ''jim@example.com'' ''12345678'' ''Jim'' \<in># tasks s \<and>
       find_id 1 (accounts (server s)) = None"
proof -
  obtain s where run: "app_run (app_init test_backend)
         [Complete Startup_get, Link_create_account, Type_register_name ''Jim'',
          Type_register_email ''jim@example.com'', Type_register_password ''12345678'',
          Press_create_account] = Some s"
    by (simp add: app_eval_simps)
  have r: "reachable test_backend s" by (rule app_run_reachable [OF reachable.init run])
  have t: "Register_create 1 1 ''jim@example.com'' ''12345678'' ''Jim'' \<in># tasks s"
    using run by (simp add: app_eval_simps, hypsubst, simp add: app_eval_simps)
  show ?thesis using run r t test_backend_wf register_id_fresh [OF r test_backend_wf t] by blast
qed

lemma finish_alerts [simp]:
  "alerts (login_finish k r s) =
     alerts s @ (case r of Inr _ \<Rightarrow> [] | Inl e \<Rightarrow> [failure_alert ''Login failed'' e])"
  "alerts (register_finish k r s) =
     alerts s @ (case r of Inr _ \<Rightarrow> [] | Inl e \<Rightarrow> [failure_alert ''Register failed'' e])"
  "alerts (logout_finish k r' s) =
     alerts s @ (case r' of Inr _ \<Rightarrow> [] | Inl e \<Rightarrow> [failure_alert ''Logout failed'' e])"
  by (simp_all add: login_finish_def register_finish_def logout_finish_def on_login_end_def
      on_register_end_def on_logout_end_def split: prod.splits sum.split)

lemma run_task_alerts:
  "\<exists>als. alerts (run_task t s) = alerts s @ als \<and> length als \<le> 1"
  by (cases t) (auto simp: Let_def case_prod_beta split: sum.split)

text \<open>C27: every step of the app appends at most one alert and never removes one: each
  handler calls \<open>Alert.alert\<close> at most once, on its validation or in its \<open>catch\<close>.\<close>

theorem one_alert_per_step:
  assumes "app_step s e = Some s'"
  shows "\<exists>als. alerts s' = alerts s @ als \<and> length als \<le> 1"
proof (cases e)
  case (Complete t)
  with assms have "s' = run_task t (s\<lparr>tasks := tasks s - {#t#}\<rparr>)" by (simp split: if_splits)
  then show ?thesis using run_task_alerts [of t "s\<lparr>tasks := tasks s - {#t#}\<rparr>"] by simp
qed (use assms in \<open>auto simp del: mount.simps simp: press_sign_in_def press_create_account_def
      press_sign_out_def split: if_splits option.splits submit.splits prod.splits\<close>)

lemma one_alert_per_step_witness:
  "\<exists>s s'. app_run (app_init empty_backend) [Complete Startup_get, Link_sign_in] = Some s \<and>
     app_step s Press_sign_in = Some s' \<and> (\<exists>als. alerts s' = alerts s @ als \<and> length als \<le> 1)"
proof -
  obtain s where run: "app_run (app_init empty_backend) [Complete Startup_get, Link_sign_in] = Some s"
    by (simp add: app_eval_simps)
  obtain s' where st: "app_step s Press_sign_in = Some s'"
    using run by (simp add: app_eval_simps, hypsubst, simp add: app_eval_simps)
  show ?thesis using run st one_alert_per_step [OF st] by blast
qed

text \<open>C28: pressing "Create account" with an empty name, email or password field only
  shows the "Missing info" alert: no id is drawn, no call is started and the service is not
  contacted.\<close>

theorem create_account_missing_info:
  assumes "shown s Register_screen" and "\<not> rf_loading (rform s)"
    and "rf_name (rform s) = [] \<or> rf_email (rform s) = [] \<or> rf_password (rform s) = []"
  shows "app_step s Press_create_account =
           Some (s\<lparr>alerts := alerts s @ [Alert ''Missing info'' ''Please enter name, email, and password.'']\<rparr>)"
  using assms by (auto simp: press_create_account_def on_register_begin_def)

lemma create_account_missing_info_witness:
  "\<exists>s. app_run (app_init empty_backend) [Complete Startup_get, Link_create_account,
         Type_register_name ''Jim''] = Some s \<and>
     app_step s Press_create_account =
       Some (s\<lparr>alerts := alerts s @ [Alert ''Missing info'' ''Please enter name, email, and password.'']\<rparr>)"
proof -
  obtain s where run: "app_run (app_init empty_backend) [Complete Startup_get, Link_create_account,
         Type_register_name ''Jim''] = Some s"
    by (simp add: app_eval_simps)
  have h: "shown s Register_screen" "\<not> rf_loading (rform s)"
    "rf_name (rform s) = [] \<or> rf_email (rform s) = [] \<or> rf_password (rform s) = []"
    using run by (simp add: app_eval_simps, hypsubst, simp add: app_eval_simps)+
  show ?thesis using run create_account_missing_info [OF h] by blast
qed

lemma shown_forms [simp]:
  "shown (s\<lparr>lform := f\<rparr>) sc = shown s sc" "shown (s\<lparr>rform := g\<rparr>) sc = shown s sc"
  by (cases "route s"; simp add: shown_def current_view_def render_defs split: option.split)+

text \<open>C29: typing into a field round-trips: on the displayed login or register screen, the
  event the \<open>n\<close>-th rendered input's \<open>onChangeText\<close> dispatches with a text \<open>v\<close> is
  possible, the screen stays displayed, and the rendered inputs then show \<open>v\<close> in that
  input and the old values in the others.\<close>

theorem typed_text_shown:
  assumes "shown s sc" and "n < length (rendered_inputs (screen_fields s sc))"
  shows "\<exists>s'. app_step s (edit_event (ip_on_change_text (rendered_inputs (screen_fields s sc) ! n) v)) = Some s' \<and>
           shown s' sc \<and>
           map ip_value (rendered_inputs (screen_fields s' sc)) =
             (map ip_value (rendered_inputs (screen_fields s sc)))[n := v]"
  using assms
  by (cases sc) (auto simp: login_fields_def register_fields_def less_Suc_eq)

lemma typed_text_shown_witness:
  "\<exists>s. app_run (app_init empty_backend) [Complete Startup_get, Link_sign_in] = Some s \<and>
     shown s Login_screen \<and> 0 < length (rendered_inputs (screen_fields s Login_screen)) \<and>
     (\<exists>s'. app_step s (edit_event (ip_on_change_text (rendered_inputs (screen_fields s Login_screen) ! 0)
              ''jim@example.com'')) = Some s' \<and>
        shown s' Login_screen \<and>
        map ip_value (rendered_inputs (screen_fields s' Login_screen)) =
          (map ip_value (rendered_inputs (screen_fields s Login_screen)))[0 := ''jim@example.com''])"
proof -
  obtain s where run: "app_run (app_init empty_backend) [Complete Startup_get, Link_sign_in] = Some s"
    by (simp add: app_eval_simps)
  have h: "shown s Login_screen" "0 < length (rendered_inputs (screen_fields s Login_screen))"
    using run by (simp add: app_eval_simps, hypsubst, simp add: app_eval_simps) (simp add: login_fields_def)
  show ?thesis using run h typed_text_shown [OF h] by blast
qed

end
