(* ===== verification/Service_Spec.thy ===== *)
theory Service_Spec
  imports Auth
begin

text \<open>
  An abstract specification of what the auth flows of \<open>src/appwrite/auth.ts\<close> promise,
  in the terms of the spec (sections 3, 4.1, 4.2, 6): the service holds the registered
  accounts by email and the account the session \<open>"current"\<close> designates, and sign-up,
  sign-in and sign-out are single atomic operations on that state.  \<open>abs_service\<close> maps
  the service model of \<open>Backend\<close> (account list, session id, ids, link schedule) to it.
  The refinement theorems show that on a healthy network the multi-call flows
  \<open>register\<close>, \<open>login\<close> and \<open>logout\<close> implement the atomic operations, results and
  errors included: \<open>map_prod id abs_service (f b) = F (abs_service b)\<close>.
\<close>

section \<open>Abstract state and operations\<close>

record account_view =
  registered :: "string \<rightharpoonup> account"
  signed_in :: "account option"

definition abs_service :: "backend \<Rightarrow> account_view" where
  "abs_service b =
     \<lparr>registered = map_of (map (\<lambda>a. (acc_email a, a)) (accounts b)),
      signed_in = (case session b of None \<Rightarrow> None | Some i \<Rightarrow> find_id i (accounts b))\<rparr>"

text \<open>Sign-up creates the account, then opens a session for it; a session already open
  refuses the second step, and the account stays created (no rollback, spec section 4.2).\<close>

definition spec_sign_up ::
  "nat \<Rightarrow> string \<Rightarrow> string \<Rightarrow> string \<Rightarrow> account_view \<Rightarrow> (remote_error + user) \<times> account_view" where
  "spec_sign_up uid e pw n S =
     (case check_params e pw of
        Some err \<Rightarrow> (Inl err, S)
      | None \<Rightarrow>
          if registered S e \<noteq> None then (Inl User_already_exists, S)
          else let a = \<lparr>acc_id = uid, acc_email = e, acc_password = pw, acc_name = n, acc_prefs = []\<rparr>;
                   S1 = S\<lparr>registered := (registered S)(e \<mapsto> a)\<rparr>
               in if signed_in S \<noteq> None then (Inl User_session_already_exists, S1)
                  else (Inr (user_of a), S1\<lparr>signed_in := Some a\<rparr>))"

definition spec_sign_in :: "string \<Rightarrow> string \<Rightarrow> account_view \<Rightarrow> (remote_error + user) \<times> account_view" where
  "spec_sign_in e pw S =
     (case check_params e pw of
        Some err \<Rightarrow> (Inl err, S)
      | None \<Rightarrow>
          if signed_in S \<noteq> None then (Inl User_session_already_exists, S)
          else case registered S e of
                 Some a \<Rightarrow> if acc_password a = pw then (Inr (user_of a), S\<lparr>signed_in := Some a\<rparr>)
                           else (Inl User_invalid_credentials, S)
               | None \<Rightarrow> (Inl User_invalid_credentials, S))"

definition spec_sign_out :: "account_view \<Rightarrow> (remote_error + unit) \<times> account_view" where
  "spec_sign_out S =
     (case signed_in S of None \<Rightarrow> (Inl Guest_missing_scope, S) | Some _ \<Rightarrow> (Inr (), S\<lparr>signed_in := None\<rparr>))"

section \<open>Lemmas on the abstraction\<close>

lemma map_of_keyed: "map_of (map (\<lambda>a. (k a, a)) xs) x = find (\<lambda>a. k a = x) xs"
  by (induction xs) auto

lemma abs_registered [simp]: "registered (abs_service b) = (\<lambda>e. find_email e (accounts b))"
  by (simp add: abs_service_def map_of_keyed find_email_def fun_eq_iff)

lemma abs_service_frame [simp]:
  "abs_service (b\<lparr>links := ls\<rparr>) = abs_service b" "abs_service (b\<lparr>id_seed := n\<rparr>) = abs_service b"
  "abs_service (b\<lparr>id_seed := n, accounts := as\<rparr>) = abs_service (b\<lparr>accounts := as\<rparr>)"
  by (simp_all add: abs_service_def split: option.split)

lemma abs_signed_in_wf:
  assumes "backend_wf b"
  shows "signed_in (abs_service b) = None \<longleftrightarrow> session b = None"
  using assms by (auto simp: abs_service_def backend_wf_def find_id_None split: option.splits)

lemma abs_session_set:
  assumes "backend_wf b" and "a \<in> set (accounts b)"
  shows "abs_service (b\<lparr>session := Some (acc_id a)\<rparr>) = (abs_service b)\<lparr>signed_in := Some a\<rparr>"
  using assms by (simp add: abs_service_def backend_wf_def find_id_distinct)

lemma find_id_append_old:
  "i \<in> set (map acc_id as) \<Longrightarrow> find_id i (as @ bs) = find_id i as"
  by (induction as) (auto simp: find_id_def)

lemma find_email_snoc:
  assumes "acc_email a \<notin> set (map acc_email as)"
  shows "find_email x (as @ [a]) = (if x = acc_email a then Some a else find_email x as)"
proof (cases "x = acc_email a")
  case True
  with assms show ?thesis by (simp add: find_email_append_fresh)
next
  case False
  then show ?thesis by (simp add: find_email_def find_append split: option.split)
qed

lemma abs_append:
  assumes wf: "backend_wf b" and e: "acc_email a \<notin> set (map acc_email (accounts b))"
    and i: "acc_id a \<notin> set (map acc_id (accounts b))"
  shows "abs_service (b\<lparr>accounts := accounts b @ [a]\<rparr>) =
           (abs_service b)\<lparr>registered := (registered (abs_service b))(acc_email a \<mapsto> a)\<rparr>"
proof -
  have "signed_in (abs_service (b\<lparr>accounts := accounts b @ [a]\<rparr>)) = signed_in (abs_service b)"
    using wf by (auto simp: abs_service_def backend_wf_def find_id_append_old split: option.splits)
  moreover have "registered (abs_service (b\<lparr>accounts := accounts b @ [a]\<rparr>)) =
                   (registered (abs_service b))(acc_email a \<mapsto> a)"
    using e by (simp add: fun_eq_iff find_email_snoc)
  ultimately show ?thesis by (cases "abs_service b") (simp add: abs_service_def)
qed

lemmas sdk_healthy_defs = account_create_def account_create_email_password_session_def account_get_def
  account_delete_session_def srv_create_def srv_create_session_def srv_get_def srv_delete_session_def

text \<open>C20: on a healthy network and a well-formed service, \<open>login\<close> (a session request,
  then \<open>account.get()\<close>) implements the atomic sign-in of the specification: the same
  result or error, and the same abstract service state afterwards.\<close>

theorem login_refines_spec:
  assumes wf: "backend_wf b" and net: "links b = []"
  shows "map_prod id abs_service (login e pw b) = spec_sign_in e pw (abs_service b)"
proof (cases "check_params e pw")
  case (Some err)
  then show ?thesis using net by (simp add: login_def sdk_healthy_defs spec_sign_in_def)
next
  case cp: None
  show ?thesis
  proof (cases "session b")
    case (Some i)
    then have "signed_in (abs_service b) \<noteq> None" using abs_signed_in_wf [OF wf] by simp
    then show ?thesis using cp Some net by (simp add: login_def sdk_healthy_defs spec_sign_in_def)
  next
    case nos: None
    then have si: "signed_in (abs_service b) = None" using abs_signed_in_wf [OF wf] by simp
    show ?thesis
    proof (cases "find_email e (accounts b)")
      case None
      then show ?thesis using cp nos si net by (simp add: login_def sdk_healthy_defs spec_sign_in_def)
    next
      case (Some a)
      then have a: "a \<in> set (accounts b)" by (auto dest: find_email_Some)
      then have "find_id (acc_id a) (accounts b) = Some a"
        using wf by (simp add: backend_wf_def find_id_distinct)
      then show ?thesis using cp nos si net Some abs_session_set [OF wf a]
        by (simp add: login_def sdk_healthy_defs spec_sign_in_def)
    qed
  qed
qed

lemma login_refines_spec_witness:
  "backend_wf test_backend \<and> links test_backend = [] \<and>
   map_prod id abs_service (login ''jimmuell@aol.com'' ''12345678'' test_backend) =
     spec_sign_in ''jimmuell@aol.com'' ''12345678'' (abs_service test_backend) \<and>
   fst (spec_sign_in ''jimmuell@aol.com'' ''12345678'' (abs_service test_backend)) = Inr (user_of test_account)"
proof -
  have h: "backend_wf test_backend" "links test_backend = []"
    by (simp_all add: test_backend_wf) (simp add: test_backend_def)
  have "fst (login ''jimmuell@aol.com'' ''12345678'' test_backend) = Inr (user_of test_account)"
    by (simp add: login_test_credentials)
  then show ?thesis using h login_refines_spec [OF h, of "''jimmuell@aol.com''" "''12345678''"]
    by (metis fst_map_prod id_apply)
qed

text \<open>C22: on a healthy network and a well-formed service, \<open>logout\<close> implements the
  atomic sign-out: it ends the session when there is one and fails otherwise.\<close>

theorem logout_refines_spec:
  assumes wf: "backend_wf b" and net: "links b = []"
  shows "map_prod id abs_service (logout b) = spec_sign_out (abs_service b)"
proof (cases "session b")
  case None
  then have "signed_in (abs_service b) = None" using abs_signed_in_wf [OF wf] by simp
  then show ?thesis using None net by (simp add: logout_def sdk_healthy_defs spec_sign_out_def)
next
  case (Some i)
  then have "signed_in (abs_service b) \<noteq> None" using abs_signed_in_wf [OF wf] by simp
  then show ?thesis using Some net
    by (auto simp: logout_def sdk_healthy_defs spec_sign_out_def abs_service_def)
qed

lemma logout_refines_spec_witness:
  "backend_wf (test_backend\<lparr>session := Some 0\<rparr>) \<and> links (test_backend\<lparr>session := Some 0\<rparr>) = [] \<and>
   map_prod id abs_service (logout (test_backend\<lparr>session := Some 0\<rparr>)) =
     spec_sign_out (abs_service (test_backend\<lparr>session := Some 0\<rparr>))"
proof -
  have h: "backend_wf (test_backend\<lparr>session := Some 0\<rparr>)" "links (test_backend\<lparr>session := Some 0\<rparr>) = []"
    by (simp_all add: backend_wf_def test_backend_def test_account_def)
  show ?thesis using h logout_refines_spec [OF h] by blast
qed

text \<open>C21: on a healthy network and a well-formed service, \<open>register\<close> (an id from
  \<open>ID.unique()\<close>, account creation, a session request, \<open>account.get()\<close>) implements
  the atomic sign-up of the specification with that id, errors included: an existing email
  or invalid parameters change nothing, and an open session leaves the account created but
  not signed in.\<close>

theorem register_refines_spec:
  assumes wf: "backend_wf b" and net: "links b = []"
  shows "map_prod id abs_service (register e pw n b) = spec_sign_up (id_seed b) e pw n (abs_service b)"
proof -
  let ?a = "\<lparr>acc_id = id_seed b, acc_email = e, acc_password = pw, acc_name = n, acc_prefs = []\<rparr>"
  have nid: "id_seed b \<notin> set (map acc_id (accounts b))" using wf by (auto simp: backend_wf_def)
  show ?thesis
  proof (cases "check_params e pw = None \<and> e \<notin> set (map acc_email (accounts b))")
    case False
    then consider (bad) err where "check_params e pw = Some err"
      | (dup) "check_params e pw = None" "find_email e (accounts b) \<noteq> None"
      by (cases "check_params e pw") (auto simp: find_email_None)
    then show ?thesis
    proof cases
      case bad
      then show ?thesis using net by (simp add: register_def ID_unique_def sdk_healthy_defs spec_sign_up_def)
    next
      case dup
      have "find_id (id_seed b) (accounts b) = None" using nid by (simp add: find_id_None)
      with dup show ?thesis using net
        by (simp add: register_def ID_unique_def sdk_healthy_defs spec_sign_up_def)
    qed
  next
    case True
    then have cp: "check_params e pw = None" and fresh: "e \<notin> set (map acc_email (accounts b))" by auto
    have reg: "registered (abs_service (b\<lparr>accounts := accounts b @ [?a]\<rparr>)) = (registered (abs_service b))(e \<mapsto> ?a)"
      using fresh by (simp add: fun_eq_iff find_email_snoc)
    have ab: "abs_service (b\<lparr>accounts := accounts b @ [?a]\<rparr>) =
                (abs_service b)\<lparr>registered := (registered (abs_service b))(e \<mapsto> ?a)\<rparr>"
      using abs_append [of b ?a] wf nid fresh by simp
    show ?thesis
    proof (cases "session b")
      case None
      have "abs_service (b\<lparr>id_seed := Suc (id_seed b), accounts := accounts b @ [?a],
                             session := Some (id_seed b)\<rparr>) =
              (abs_service b)\<lparr>registered := (registered (abs_service b))(e \<mapsto> ?a), signed_in := Some ?a\<rparr>"
        using reg nid by (simp add: abs_service_def find_id_append_fresh)
      moreover have "signed_in (abs_service b) = None" using None abs_signed_in_wf [OF wf] by simp
      ultimately show ?thesis
        using register_healthy_eq [OF wf net None cp fresh refl] cp fresh
        by (simp add: spec_sign_up_def find_email_None Let_def)
    next
      case (Some i)
      then have "signed_in (abs_service b) \<noteq> None" using abs_signed_in_wf [OF wf] by simp
      then show ?thesis using Some net cp fresh nid ab
        by (simp add: register_def ID_unique_def sdk_healthy_defs spec_sign_up_def find_id_None
            find_email_None [symmetric] Let_def)
    qed
  qed
qed

lemma register_refines_spec_witness:
  "backend_wf test_backend \<and> links test_backend = [] \<and>
   map_prod id abs_service (register ''jim@example.com'' ''12345678'' ''Jim'' test_backend) =
     spec_sign_up (id_seed test_backend) ''jim@example.com'' ''12345678'' ''Jim'' (abs_service test_backend)"
proof -
  have h: "backend_wf test_backend" "links test_backend = []"
    by (simp_all add: test_backend_wf) (simp add: test_backend_def)
  show ?thesis using h register_refines_spec [OF h] by blast
qed

end
