(* ===== verification/Navigation.thy ===== *)
theory Navigation
  imports Screens
begin

text \<open>
  The navigation stack options of \<open>src/app/_layout.tsx\<close>: the \<open>screenOptions\<close> of the
  \<open><Stack>\<close> and the \<open>options\<close> of each \<open><Stack.Screen>\<close>.  An options object sets
  some of the fields of \<open>screen_options\<close> (\<open>None\<close>: the key is absent); the options a
  screen is shown with are the navigator's defaults, overridden by \<open>screenOptions\<close>,
  overridden by the screen's own \<open>options\<close>, key by key.  \<open>headerLeft: () => null\<close> is
  the value \<open>Header_left_null\<close>, a header-left slot that renders nothing.
\<close>

section \<open>Options and their merge\<close>

datatype presentation = Card | Modal

datatype title_align = Align_left | Align_center

datatype header_left = Header_left_default | Header_left_null

record screen_options =
  so_title :: "string option"
  so_header_shown :: "bool option"
  so_presentation :: "presentation option"
  so_header_title_align :: "title_align option"
  so_header_back_visible :: "bool option"
  so_header_left :: "header_left option"

definition no_options :: screen_options where
  "no_options = \<lparr>so_title = None, so_header_shown = None, so_presentation = None,
                 so_header_title_align = None, so_header_back_visible = None, so_header_left = None\<rparr>"

fun override :: "'a option \<Rightarrow> 'a option \<Rightarrow> 'a option" where
  "override (Some v) _ = Some v"
| "override None d = d"

text \<open>\<open>{...base, ...opts}\<close>: a key the later object sets wins.\<close>

definition merge_options :: "screen_options \<Rightarrow> screen_options \<Rightarrow> screen_options" where
  "merge_options base opts =
     \<lparr>so_title = override (so_title opts) (so_title base),
      so_header_shown = override (so_header_shown opts) (so_header_shown base),
      so_presentation = override (so_presentation opts) (so_presentation base),
      so_header_title_align = override (so_header_title_align opts) (so_header_title_align base),
      so_header_back_visible = override (so_header_back_visible opts) (so_header_back_visible base),
      so_header_left = override (so_header_left opts) (so_header_left base)\<rparr>"

section \<open>The stack of _layout.tsx\<close>

text \<open>What the native stack does for a key nobody sets: the route name as title, a shown
  header, card presentation, a visible back button and the default header-left; the title
  alignment is left to the platform.\<close>

definition stack_defaults :: "screen \<Rightarrow> screen_options" where
  "stack_defaults sc =
     \<lparr>so_title = Some (href sc), so_header_shown = Some True, so_presentation = Some Card,
      so_header_title_align = None, so_header_back_visible = Some True,
      so_header_left = Some Header_left_default\<rparr>"

definition stack_screen_options :: screen_options where
  "stack_screen_options =
     no_options\<lparr>so_header_title_align := Some Align_center, so_header_back_visible := Some False,
                so_header_left := Some Header_left_null\<rparr>"

fun stack_screen :: "screen \<Rightarrow> screen_options" where
  "stack_screen Index_screen = no_options\<lparr>so_title := Some ''Welcome'', so_header_shown := Some False\<rparr>"
| "stack_screen Login_screen = no_options\<lparr>so_title := Some ''Sign In'', so_presentation := Some Modal\<rparr>"
| "stack_screen Register_screen =
     no_options\<lparr>so_title := Some ''Create Account'', so_presentation := Some Modal\<rparr>"
| "stack_screen Home_screen =
     no_options\<lparr>so_title := Some ''Home'', so_header_back_visible := Some False,
                so_header_left := Some Header_left_null\<rparr>"

definition effective_options :: "screen \<Rightarrow> screen_options" where
  "effective_options sc = merge_options (merge_options (stack_defaults sc) stack_screen_options) (stack_screen sc)"

end
