(* ===== verification/Spec2Isabelle.thy ===== *)
theory Spec2Isabelle
  imports System Service_Spec Navigation
begin

text \<open>
  \<^bold>\<open>A verification library for appwrite-expo-auth.\<close>

  The program is a small Expo/React Native client that delegates identity to a remote
  account service.  Data flows: a screen reads the user from the Auth State Container,
  a button starts an Auth Operation, the operation calls the Session Client, the result
  is written back with \<open>setUser\<close>, and the screens' redirects re-evaluate.  Its parts,
  leaf first, and the theory that models each:

  \<^item> \<^bold>\<open>Prelude\<close>: the JavaScript semantics the sources rely on
    (\<open>String.prototype.trim\<close> as \<open>js_trim\<close>, restricted to Latin-1 characters;
    \<open>??\<close> as \<open>js_nullish\<close>), the composition \<open>await_then\<close> of async calls that
    may throw, and shared lemmas on lists, trimming and \<open>await_then\<close>.

  \<^item> \<^bold>\<open>Backend\<close> (the Session Client of \<open>src/appwrite/client.ts\<close> and the remote
    service behind it): the constants of \<open>new Client()\<close> (\<open>client\<close>); the record
    \<open>backend\<close> holds the accounts, the session designated \<open>"current"\<close>, the
    generator of \<open>ID.unique()\<close> and a schedule of link outcomes (\<open>Delivered\<close>,
    \<open>Lost_request\<close>, \<open>Lost_response\<close>; the empty schedule is a healthy network).
    The service is not code of this repository and is modelled from the spec (sections 3,
    4.1, 6 and 7): the SDK calls \<open>account_create\<close>,
    \<open>account_create_email_password_session\<close>, \<open>account_get\<close>,
    \<open>account_delete_session\<close> are \<open>remote_call\<close> around a server handler
    \<open>srv_*\<close>; every failure is a \<open>remote_error\<close>.  Where the spec is silent the
    service follows its documented behaviour: emails and passwords (at least 8 characters)
    are validated, and a second session is refused while one is active.
    \<open>backend_wf\<close> (unique ids and emails, issued ids, session owned by an account) is
    preserved by every call; accounts are never removed.

  \<^item> \<^bold>\<open>Auth\<close> (\<open>src/appwrite/auth.ts\<close>): \<open>register\<close>, \<open>login\<close>,
    \<open>logout\<close> composed from the SDK calls exactly as the source's awaits.  C1-C4:
    healthy registration returns the submitted email and name and a session; login with an
    unknown email, or while a session is active, always throws and changes nothing but the
    link schedule; a successful login returns exactly the credentials' owner.  C17: a lost
    session request after a delivered account creation leaves an orphan account that
    blocks re-registration; C24: a lost account request leaves nothing behind and a retry
    succeeds; C23: register, logout and login round-trip to the same user.

  \<^item> \<^bold>\<open>Service_Spec\<close>: the contract of the auth flows as an abstract service
    (\<open>account_view\<close>: accounts by email, the signed-in account) with atomic
    \<open>spec_sign_up\<close>, \<open>spec_sign_in\<close>, \<open>spec_sign_out\<close>, and the abstraction
    \<open>abs_service\<close> of \<open>backend\<close>.  C20-C22: on a healthy network and a well-formed
    service, \<open>login\<close>, \<open>register\<close> and \<open>logout\<close> refine them, errors included
    (\<open>map_prod id abs_service (f b) = F (abs_service b)\<close>).

  \<^item> \<^bold>\<open>Layout\<close> (\<open>src/app/_layout.tsx\<close>): the root state \<open>{user, checking}\<close>
    (\<open>root_state\<close>; \<open>checking\<close> is spelt \<open>checking_flag\<close>, the bare name being
    an Isar keyword), the context default and setter, the startup effect split at its await
    (\<open>startup_resume\<close>, \<open>startup_resolve\<close>) and the loading gate \<open>root_render\<close>.
    C5: the resolver always ends the checking phase and never keeps a user without a session.

  \<^item> \<^bold>\<open>Components\<close> (\<open>src/components/TextInputField.tsx\<close>): the component as a
    function from its props to an element tree; style arrays are flattened key by key
    (\<open>style_flatten\<close>, over \<open>AList.merge\<close>) and \<open>...rest\<close> is the record
    truncation \<open>input_props.truncate\<close>.  C30: the caller's style overrides the defaults.

  \<^item> \<^bold>\<open>Screens\<close> (\<open>index.tsx\<close>, \<open>home.tsx\<close>, \<open>(auth)/login.tsx\<close>,
    \<open>(auth)/register.tsx\<close>): each render as a \<open>view\<close> (a redirect or the screen),
    the local form records, the text fields each form renders with the setter each
    dispatches (\<open>login_fields\<close>, \<open>register_fields\<close>), and each handler split at its
    await into \<open>on_*_begin\<close> and \<open>on_*_end\<close>.  C6: the renders refine the spec's gate
    table \<open>gate_spec\<close>; C7: no redirect is followed by another; C8: the login
    validation, with the submitted email exactly the trimmed field; C9: a whitespace-only
    email passes it.

  \<^item> \<^bold>\<open>Navigation\<close> (the \<open><Stack>\<close> of \<open>_layout.tsx\<close>): \<open>screenOptions\<close> and
    each screen's \<open>options\<close>, merged key by key over the navigator's defaults
    (\<open>effective_options\<close>).  It is configuration: no property is stated about it.

  \<^item> \<^bold>\<open>System\<close>: the whole app as the step function \<open>app_step\<close> over one state
    \<open>app\<close> (root state, route, per-instance form state, in-flight calls as a multiset
    of suspended flows, alerts, service), with the reachable states as an inductive
    predicate.  User events are enabled only on the displayed screen and only on enabled
    buttons; completing a task performs one round-trip and runs the code up to the next
    await, so flows interleave exactly at their awaits; every navigation mounts a fresh
    screen instance, and a handler's \<open>setLoading\<close> touches only its own instance.
    Invariants by rule induction: \<open>inv_phase\<close> (C10: nothing but the resolver runs
    while checking), \<open>inv_loading\<close> (C11: one call in flight per screen exactly while
    its button is disabled), \<open>inv_server\<close> (the service stays well formed and every
    registration in flight holds an issued id; a helper of the next two), \<open>inv_user\<close> (C25: a stored user is the
    snapshot of a registered account, which Home shows) and \<open>inv_ids\<close> (C31: every
    registration in flight holds a free id; C26: accounts plus pending registrations never
    outnumber the issued ids).  Steps and runs: C12 a lost logout response leaves the user
    shown as signed in; C13 a session the client does not know about locks logins out; C14
    and C28 empty fields never reach the service; C15 and C18 the task decompositions of a
    login and of a registration refine \<open>auth.login\<close> and \<open>auth.register\<close>; C19 a
    healthy sign-out returns to Welcome; C27 each step shows at most one alert; C29 typing
    into a rendered field round-trips to what the field shows.

  \<^item> This theory: C16, the end-to-end register flow on a healthy network, from the
    filled register screen through the three calls and the redirect to Home greeting the
    submitted name.

  No fuel or bounds are needed: every definition is structurally recursive or
  non-recursive, and the only loop of the program, the redirect chain, is shown to stop
  after one step (C7).  Not modelled: the screens' own styling and static texts (headings,
  and the button labels, whose ellipsis character lies outside Latin-1), the
  \<open>useMemo\<close> around the context value (it changes no observable value), the URL
  polyfill import, the service's internals beyond the behaviour stated above, the
  navigation stack below the top screen (a mounted screen below the top keeps its state
  but is not rendered), and the ways out of a screen the native stack offers outside its
  options (dismissing a modal by a gesture, the Android back button).

  Plan for the next sittings: a simulation of the whole app against the abstract service
  (every reachable state's service abstracts to a state reached by atomic operations),
  the lost-response cases of each call at the app level, and the stale-instance
  behaviour of a handler whose screen was unmounted while its call was in flight.
\<close>

text \<open>C16: on a healthy network, a register screen showing a valid form (a name, a valid
  email not yet registered once trimmed, a password of at least 8 characters) and a
  well-formed service without a session, pressing "Create account" and completing the three
  calls in order ends on Home, showing the greeting of a user with the submitted (trimmed)
  email and name, with no alert.\<close>

theorem register_flow_reaches_home:
  assumes sh: "shown s Register_screen" and nl: "\<not> rf_loading (rform s)"
    and net: "links (server s) = []" and nos: "session (server s) = None"
    and wf: "backend_wf (server s)" and nm: "rf_name (rform s) \<noteq> []"
    and ev: "email_valid (js_trim (rf_email (rform s)))"
    and pl: "min_password_length \<le> length (rf_password (rform s))"
    and fresh: "js_trim (rf_email (rform s)) \<notin> set (map acc_email (accounts (server s)))"
  shows "let e = js_trim (rf_email (rform s)); n = js_trim (rf_name (rform s));
             p = rf_password (rform s); k = register_id s; uid = id_seed (server s)
         in \<exists>s' u. app_run s [Press_create_account, Complete (Register_create k uid e p n),
                     Complete (Register_session k e p), Complete (Register_get k), Follow_redirect] = Some s' \<and>
                 user (root s') = Some u \<and> user_email u = e \<and> user_name u = n \<and>
                 route s' = Home_screen \<and> current_view s' = Home_view (home_greeting u) e False \<and>
                 alerts s' = alerts s"
proof -
  let ?e = "js_trim (rf_email (rform s))" and ?n = "js_trim (rf_name (rform s))"
  let ?p = "rf_password (rform s)" and ?uid = "id_seed (server s)"
  let ?b1 = "server s\<lparr>id_seed := Suc ?uid\<rparr>"
  let ?a = "\<lparr>acc_id = ?uid, acc_email = ?e, acc_password = ?p, acc_name = ?n, acc_prefs = []\<rparr>"
  have cp: "check_params ?e ?p = None" using ev pl by (simp add: check_params_def)
  have nid: "?uid \<notin> set (map acc_id (accounts ?b1))" using wf by (auto simp: backend_wf_def)
  note calls = healthy_register_calls [of ?b1 ?e ?p ?uid ?a ?n, OF _ _ cp nid _ refl]
  have ne: "rf_email (rform s) \<noteq> []" "?p \<noteq> []"
    using ev pl by (auto simp: email_valid_def js_trim_def min_password_length_def)
  have ck: "\<not> checking_flag (root s)" "route s = Register_screen" "user (root s) = None"
    using sh by (auto simp: shown_def current_view_def render_defs split: option.splits)
  show ?thesis
    using calls net nos fresh ck nm ne sh nl
    by (simp add: Let_def press_create_account_def on_register_begin_def ID_unique_def
        register_finish_def on_register_end_def set_user_def current_view_def render_defs
        user_of_def)
qed

lemma register_flow_reaches_home_witness:
  "\<exists>s. app_run (app_init empty_backend)
         [Complete Startup_get, Link_create_account, Type_register_name ''Jim'',
          Type_register_email '' jim@example.com'', Type_register_password ''12345678''] = Some s \<and>
       shown s Register_screen \<and> \<not> rf_loading (rform s) \<and> links (server s) = [] \<and>
       session (server s) = None \<and> backend_wf (server s) \<and> rf_name (rform s) \<noteq> [] \<and>
       email_valid (js_trim (rf_email (rform s))) \<and>
       min_password_length \<le> length (rf_password (rform s)) \<and>
       js_trim (rf_email (rform s)) \<notin> set (map acc_email (accounts (server s))) \<and>
       (let e = js_trim (rf_email (rform s)); n = js_trim (rf_name (rform s));
             p = rf_password (rform s); k = register_id s; uid = id_seed (server s)
        in \<exists>s' u. app_run s [Press_create_account, Complete (Register_create k uid e p n),
                     Complete (Register_session k e p), Complete (Register_get k), Follow_redirect] = Some s' \<and>
                 user (root s') = Some u \<and> user_email u = e \<and> user_name u = n \<and>
                 route s' = Home_screen \<and> current_view s' = Home_view (home_greeting u) e False \<and>
                 alerts s' = alerts s)"
proof -
  obtain s where run: "app_run (app_init empty_backend)
         [Complete Startup_get, Link_create_account, Type_register_name ''Jim'',
          Type_register_email '' jim@example.com'', Type_register_password ''12345678''] = Some s"
    by (simp add: app_eval_simps)
  have h: "shown s Register_screen" "\<not> rf_loading (rform s)" "links (server s) = []"
    "session (server s) = None" "backend_wf (server s)" "rf_name (rform s) \<noteq> []"
    "email_valid (js_trim (rf_email (rform s)))"
    "min_password_length \<le> length (rf_password (rform s))"
    "js_trim (rf_email (rform s)) \<notin> set (map acc_email (accounts (server s)))"
    using run by (simp add: app_eval_simps backend_wf_def, hypsubst, simp add: app_eval_simps backend_wf_def)+
  show ?thesis using run h register_flow_reaches_home [OF h] by blast
qed

end
